theory Spec2Isabelle
  imports Main "HOL-Library.Sublist" "HOL-Library.Char_ord" "HOL-Library.List_Lexorder"
    "HOL-Library.Product_Lexorder"
begin
section \<open>Bytes and strings\<close>

text \<open>
  A Python \<open>bytes\<close> value is a list of 8-bit characters. A Python \<open>str\<close> is modelled the
  same way, as a list of code points below 256: the character sets the code tests are sets
  of ASCII characters, and \<open>encode('ascii')\<close> only asks whether a code point is below 128.
\<close>

type_synonym bytes = "char list"

definition CR :: char where "CR = CHR 0x0D"
definition LF :: char where "LF = CHR 0x0A"
definition CRLF :: bytes where "CRLF = [CR, LF]"

text \<open>
  \<open>window.find(sub)\<close>: the lowest index at which \<open>sub\<close> occurs; \<open>None\<close> is Python's \<open>-1\<close>.
  \<open>window.find(sub, start)\<close> searches from \<open>start\<close> on.
\<close>

fun find_first :: "bytes \<Rightarrow> bytes \<Rightarrow> nat option" where
  "find_first sub [] = (if sub = [] then Some 0 else None)"
| "find_first sub (x # xs) =
     (if prefix sub (x # xs) then Some 0 else map_option Suc (find_first sub xs))"

definition py_find :: "bytes \<Rightarrow> bytes \<Rightarrow> nat \<Rightarrow> nat option" where
  "py_find window sub start =
     (if length window < start then None
      else map_option (\<lambda>i. start + i) (find_first sub (drop start window)))"

text \<open>The exceptions of Python that the code can raise, as values.\<close>

datatype error =
    AttributeError
  | TypeError
  | KeyError
  | IndexError
  | LookupError
  | UnicodeDecodeError
  | ValueError string
  | RuntimeError string

text \<open>
  \<open>str.isspace\<close>, \<open>str.lower\<close>, \<open>str.isdigit\<close> on code points below 256, and the
  stripping methods built on them.
\<close>

definition isspace :: "char \<Rightarrow> bool" where
  "isspace c = (let n = (of_char c :: nat) in
     (9 \<le> n \<and> n \<le> 13) \<or> (28 \<le> n \<and> n \<le> 32) \<or> n = 133 \<or> n = 160)"

definition lower_char :: "char \<Rightarrow> char" where
  "lower_char c = (let n = (of_char c :: nat) in
     if (65 \<le> n \<and> n \<le> 90) \<or> (192 \<le> n \<and> n \<le> 222 \<and> n \<noteq> 215)
     then char_of (n + 32) else c)"

definition lower :: "string \<Rightarrow> string" where
  "lower s = map lower_char s"

definition isdigit_char :: "char \<Rightarrow> bool" where
  "isdigit_char c = (let n = (of_char c :: nat) in
     (48 \<le> n \<and> n \<le> 57) \<or> n = 178 \<or> n = 179 \<or> n = 185)"

definition isdigit :: "string \<Rightarrow> bool" where
  "isdigit s = (s \<noteq> [] \<and> list_all isdigit_char s)"

definition lstrip :: "string \<Rightarrow> string" where
  "lstrip s = dropWhile isspace s"

definition rstrip :: "string \<Rightarrow> string" where
  "rstrip s = rev (dropWhile isspace (rev s))"

definition strip :: "string \<Rightarrow> string" where
  "strip s = rstrip (lstrip s)"

text \<open>
  \<open>str(n)\<close> for a natural number, and \<open>int(s)\<close> for a string: an optional sign, decimal
  digits with single underscores between them, and surrounding whitespace. The whitespace
  \<open>int\<close> strips is narrower than \<open>str.isspace\<close>: tab to carriage return and the space, and
  beyond ASCII the Unicode spaces (U+0085 and U+00A0 below 256); the separators U+001C to
  U+001F are not stripped, and a string holding one is rejected.
\<close>

definition digit_char :: "nat \<Rightarrow> char" where
  "digit_char d = char_of (48 + d)"

fun str_nat :: "nat \<Rightarrow> string" where
  "str_nat n = (if n < 10 then [digit_char n] else str_nat (n div 10) @ [digit_char (n mod 10)])"

declare str_nat.simps [simp del]

definition is_decimal :: "char \<Rightarrow> bool" where
  "is_decimal c = (48 \<le> (of_char c :: nat) \<and> (of_char c :: nat) \<le> 57)"

fun digits_ok :: "string \<Rightarrow> bool" where
  "digits_ok [] = False"
| "digits_ok [c] = is_decimal c"
| "digits_ok (c # d # cs) =
     (if is_decimal c then
        (if d = CHR ''_'' then cs \<noteq> [] \<and> is_decimal (hd cs) \<and> digits_ok cs
         else digits_ok (d # cs))
      else False)"

definition digits_value :: "string \<Rightarrow> nat" where
  "digits_value s =
     foldl (\<lambda>acc c. if c = CHR ''_'' then acc else 10 * acc + (of_char c - 48)) 0 s"

definition int_space :: "char \<Rightarrow> bool" where
  "int_space c = (let n = (of_char c :: nat) in
     (9 \<le> n \<and> n \<le> 13) \<or> n = 32 \<or> n = 133 \<or> n = 160)"

definition py_int :: "string \<Rightarrow> error + int" where
  "py_int s =
     (let t = rev (dropWhile int_space (rev (dropWhile int_space s)));
          (neg, d) = (case t of
                        [] \<Rightarrow> (False, [])
                      | c # cs \<Rightarrow> if c = CHR ''-'' then (True, cs)
                                 else if c = CHR ''+'' then (False, cs) else (False, t))
      in if digits_ok d
         then Inr (if neg then - int (digits_value d) else int (digits_value d))
         else Inl (ValueError ''invalid literal for int()''))"

section \<open>The header container collaborator\<close>

text \<open>
  Modelled from the spec: \<open>imultidict\<close> is not among the sources; the spec describes it as an
  ordered, case-insensitive, multi-value string map with get, get-all, set and
  remove-all-of-key, on which supplied headers are layered over existing values of the same
  key. The model keeps, in insertion order, each key with the list of its values.
\<close>

type_synonym imultidict = "(string \<times> string list) list"

definition same_key :: "string \<Rightarrow> string \<Rightarrow> bool" where
  "same_key a b = (lower a = lower b)"

definition md_get_all :: "imultidict \<Rightarrow> string \<Rightarrow> string list" where
  "md_get_all h k = concat (map snd (filter (\<lambda>(k', vs). same_key k' k) h))"

definition md_contains :: "imultidict \<Rightarrow> string \<Rightarrow> bool" where
  "md_contains h k = (md_get_all h k \<noteq> [])"

definition md_get :: "imultidict \<Rightarrow> string \<Rightarrow> string option" where
  "md_get h k = (case md_get_all h k of [] \<Rightarrow> None | v # _ \<Rightarrow> Some v)"

definition md_getitem :: "imultidict \<Rightarrow> string \<Rightarrow> error + string" where
  "md_getitem h k = (case md_get h k of None \<Rightarrow> Inl KeyError | Some v \<Rightarrow> Inr v)"

fun md_setitem :: "imultidict \<Rightarrow> string \<Rightarrow> string \<Rightarrow> imultidict" where
  "md_setitem [] k v = [(k, [v])]"
| "md_setitem ((k', vs) # h) k v =
     (if same_key k' k then (k', if v \<in> set vs then vs else vs @ [v]) # h
      else (k', vs) # md_setitem h k v)"


definition md_items :: "imultidict \<Rightarrow> (string \<times> string) list" where
  "md_items h = concat (map (\<lambda>(k, vs). map (\<lambda>v. (k, v)) vs) h)"

definition md_update :: "imultidict \<Rightarrow> imultidict \<Rightarrow> imultidict" where
  "md_update h supplied = foldl (\<lambda>acc (k, v). md_setitem acc k v) h (md_items supplied)"

text \<open>The header names of \<open>hdrs\<close> (not among the sources), as the wire format writes them.\<close>

definition CONTENT_DISPOSITION :: string where "CONTENT_DISPOSITION = ''Content-Disposition''"
definition CONTENT_ENCODING :: string where "CONTENT_ENCODING = ''Content-Encoding''"
definition CONTENT_LENGTH :: string where "CONTENT_LENGTH = ''Content-Length''"
definition CONTENT_TRANSFER_ENCODING :: string where
  "CONTENT_TRANSFER_ENCODING = ''Content-Transfer-Encoding''"
definition CONTENT_TYPE :: string where "CONTENT_TYPE = ''Content-Type''"

section \<open>The transport collaborator\<close>

text \<open>
  Modelled from the spec: the stream the part reader consumes is not among the sources; its
  contract is \<open>read(max_bytes)\<close> (may return fewer bytes than requested), \<open>readline()\<close> (up to
  and including the next line terminator, or a partial line at end of stream),
  \<open>unread(bytes)\<close> (pushed back, returned by the next read) and \<open>at_eof()\<close>.
  The bytes still to come are a queue of chunks, as the network delivers them: one \<open>read\<close>
  returns bytes of the first chunk only. Every operation is recorded in \<open>oplog\<close>, so that
  "no transport operation" can be stated.
\<close>

datatype tr_op = OpRead nat | OpReadline | OpUnread bytes

record transport =
  pending :: "bytes list"
  oplog :: "tr_op list"

definition t_read :: "nat \<Rightarrow> transport \<Rightarrow> bytes \<times> transport" where
  "t_read n t =
     (case pending t of
        [] \<Rightarrow> ([], t\<lparr>oplog := oplog t @ [OpRead n]\<rparr>)
      | c # cs \<Rightarrow>
          (take n c,
           t\<lparr>pending := (if n < length c then drop n c # cs else cs),
             oplog := oplog t @ [OpRead n]\<rparr>))"

fun split_line :: "bytes \<Rightarrow> bytes \<times> bytes option" where
  "split_line [] = ([], None)"
| "split_line (x # xs) =
     (if x = LF then ([x], Some xs)
      else (case split_line xs of (l, r) \<Rightarrow> (x # l, r)))"

fun readline_chunks :: "bytes list \<Rightarrow> bytes \<times> bytes list" where
  "readline_chunks [] = ([], [])"
| "readline_chunks (c # cs) =
     (case split_line c of
        (l, None) \<Rightarrow> (case readline_chunks cs of (l', cs') \<Rightarrow> (l @ l', cs'))
      | (l, Some r) \<Rightarrow> (l, if r = [] then cs else r # cs))"

definition t_readline :: "transport \<Rightarrow> bytes \<times> transport" where
  "t_readline t =
     (case readline_chunks (pending t) of
        (l, cs) \<Rightarrow> (l, t\<lparr>pending := cs, oplog := oplog t @ [OpReadline]\<rparr>))"

definition t_unread_data :: "bytes \<Rightarrow> transport \<Rightarrow> transport" where
  "t_unread_data d t =
     t\<lparr>pending := (if d = [] then pending t else d # pending t),
       oplog := oplog t @ [OpUnread d]\<rparr>"

definition t_at_eof :: "transport \<Rightarrow> bool" where
  "t_at_eof t = (pending t = [])"

section \<open>The part reader\<close>

text \<open>
  \<open>BodyPartReader\<close>: the fields of \<open>__slots__\<close>, the leading underscore replaced by
  \<open>bp_\<close> (\<open>_cache\<close>, which no method reads, is left out). \<open>bp_content\<close> is the transport;
  \<open>bp_length\<close> is \<open>int(headers.get(CONTENT_LENGTH))\<close>, \<open>None\<close> when the header is absent.
  Embedded are \<open>__init__\<close>, \<open>read_chunk\<close> with its two helpers, and \<open>read\<close>.
\<close>

record reader =
  bp_headers :: imultidict
  bp_boundary :: bytes
  bp_content :: transport
  bp_at_eof :: bool
  bp_length :: "int option"
  bp_read_bytes :: nat
  bp_unread :: "bytes list"
  bp_prev_chunk :: "bytes option"
  bp_content_eof :: nat

text \<open>\<open>BodyPartReader.__init__\<close>; \<open>int(length)\<close> can raise.\<close>

definition BodyPartReader_init :: "bytes \<Rightarrow> imultidict \<Rightarrow> transport \<Rightarrow> error + reader" where
  "BodyPartReader_init boundary headers content =
     (case (case md_get headers CONTENT_LENGTH of
              None \<Rightarrow> Inr None
            | Some l \<Rightarrow> (case py_int l of Inl e \<Rightarrow> Inl e | Inr n \<Rightarrow> Inr (Some n))) of
        Inl e \<Rightarrow> Inl e
      | Inr len \<Rightarrow>
          Inr \<lparr>bp_headers = headers, bp_boundary = boundary, bp_content = content,
               bp_at_eof = False, bp_length = len, bp_read_bytes = 0, bp_unread = [],
               bp_prev_chunk = None, bp_content_eof = 0\<rparr>)"

definition chunk_size :: nat where
  "chunk_size = 8192"

text \<open>
  \<open>_read_chunk_from_length\<close>, called only when a length is declared. The request is
  \<open>min(size, self._length - self._read_bytes)\<close>; a negative request is outside the
  transport's contract and reads nothing in the model.
\<close>

definition read_chunk_from_length :: "nat \<Rightarrow> reader \<Rightarrow> bytes \<times> reader" where
  "read_chunk_from_length sz r =
     (case bp_length r of
        None \<Rightarrow> ([], r)
      | Some L \<Rightarrow>
          (let n = min (int sz) (L - int (bp_read_bytes r));
               (chunk, c) = t_read (nat n) (bp_content r)
           in (chunk, r\<lparr>bp_content := c\<rparr>)))"

text \<open>\<open>_read_chunk_from_stream\<close>: the sliding window over the previous and the new chunk.\<close>

definition read_chunk_from_stream :: "nat \<Rightarrow> reader \<Rightarrow> bytes \<times> reader" where
  "read_chunk_from_stream sz r =
     (let first_chunk = (bp_prev_chunk r = None);
          (prev, c1) = (case bp_prev_chunk r of
                          None \<Rightarrow> t_read sz (bp_content r)
                        | Some p \<Rightarrow> (p, bp_content r));
          (chunk, c2) = t_read sz c1;
          content_eof = bp_content_eof r + (if t_at_eof c2 then 1 else 0);
          window = prev @ chunk;
          sub = CRLF @ bp_boundary r;
          idx = (if first_chunk then py_find window sub 0
                 else py_find window sub (max 0 (length prev - length sub)))
      in case idx of
           None \<Rightarrow>
             (prev, r\<lparr>bp_content := c2, bp_content_eof := content_eof,
                       bp_prev_chunk := Some chunk\<rparr>)
         | Some i \<Rightarrow>
             (let c3 = t_unread_data (drop i window) c2;
                  prev' = (if i < sz then take i prev else prev);
                  chunk' = take (i - length prev') (drop (length prev') window)
              in (prev', r\<lparr>bp_content := c3, bp_content_eof := content_eof,
                           bp_at_eof := (if chunk' = [] then True else bp_at_eof r),
                           bp_prev_chunk := Some chunk'\<rparr>)))"

text \<open>\<open>read_chunk\<close>. \<open>if self._length:\<close> is false for an absent length and for 0.\<close>

definition read_chunk :: "nat \<Rightarrow> reader \<Rightarrow> bytes \<times> reader" where
  "read_chunk sz r =
     (if bp_at_eof r then ([], r)
      else
        (let (chunk, r1) = (if bp_length r \<noteq> None \<and> bp_length r \<noteq> Some 0
                            then read_chunk_from_length sz r
                            else read_chunk_from_stream sz r);
             r2 = r1\<lparr>bp_read_bytes := bp_read_bytes r1 + length chunk\<rparr>;
             r3 = (if Some (int (bp_read_bytes r2)) = bp_length r2
                   then r2\<lparr>bp_at_eof := True\<rparr> else r2);
             r4 = (if bp_at_eof r3
                   then r3\<lparr>bp_content := snd (t_readline (bp_content r3))\<rparr> else r3)
         in (chunk, r4)))"

text \<open>
  \<open>read\<close> with \<open>decode=False\<close>: \<open>read_chunk(self.chunk_size)\<close> until end-of-part. The loop
  does not end when the stream runs dry before a boundary; not returning is \<open>None\<close>.
\<close>

partial_function (option) read_loop :: "reader \<Rightarrow> bytes \<Rightarrow> (bytes \<times> reader) option" where
  "read_loop r data =
     (if bp_at_eof r then Some (data, r)
      else (case read_chunk chunk_size r of (c, r') \<Rightarrow> read_loop r' (data @ c)))"

definition read :: "reader \<Rightarrow> (bytes \<times> reader) option" where
  "read r = (if bp_at_eof r then Some ([], r) else read_loop r [])"

text \<open>A sequence of \<open>read_chunk\<close> calls, one per requested size, with the chunks returned.\<close>

fun read_chunks :: "nat list \<Rightarrow> reader \<Rightarrow> bytes list \<times> reader" where
  "read_chunks [] r = ([], r)"
| "read_chunks (n # ns) r =
     (case read_chunk n r of
        (c, r') \<Rightarrow> (case read_chunks ns r' of (cs, r'') \<Rightarrow> (c # cs, r'')))"

section \<open>The encoding sink\<close>

text \<open>
  \<open>base64.b64encode\<close> of the standard library: three bytes become four characters of the
  standard alphabet; a last group of one or two bytes is padded with \<open>=\<close>.
\<close>

definition b64_alphabet :: string where
  "b64_alphabet = ''ABCDEFGHIJKLMNOPQRSTUVWXYZabcdefghijklmnopqrstuvwxyz0123456789+/''"

definition b64_char :: "nat \<Rightarrow> char" where
  "b64_char n = b64_alphabet ! (n mod 64)"

fun b64encode :: "bytes \<Rightarrow> bytes" where
  "b64encode (a # b # c # rest) =
     (let n = of_char a * 65536 + of_char b * 256 + of_char c
      in [b64_char (n div 262144), b64_char (n div 4096), b64_char (n div 64), b64_char n])
     @ b64encode rest"
| "b64encode [a, b] =
     (let n = of_char a * 1024 + of_char b * 4
      in [b64_char (n div 4096), b64_char (n div 64), b64_char n, CHR ''=''])"
| "b64encode [a] =
     (let n = of_char a * 16
      in [b64_char (n div 64), b64_char n, CHR ''='', CHR ''=''])"
| "b64encode [] = []"

text \<open>
  The compressor collaborator (\<open>ZLIB_COMPRESSOR\<close>, \<open>BROTLI_COMPRESSOR\<close> of \<open>protocol\<close>, not
  among the sources) is a parameter: a state of type \<open>'c\<close> with \<open>compress\<close> and \<open>flush\<close>.
\<close>

record 'c codec =
  cz_compress :: "'c \<Rightarrow> bytes \<Rightarrow> bytes \<times> 'c"
  cz_flush :: "'c \<Rightarrow> bytes"
  cz_zlib :: "int \<Rightarrow> 'c"
  cz_brotli :: "'c option"

text \<open>
  \<open>MultipartPayloadWriter\<close>. The underlying writer is the list of the chunks written to it.
\<close>

record 'c sink =
  pw_writer :: "bytes list"
  pw_encoding :: "string option"
  pw_compressor :: "'c option"
  pw_encoding_buffer :: "bytes option"

definition MultipartPayloadWriter_init :: "bytes list \<Rightarrow> 'c sink" where
  "MultipartPayloadWriter_init writer =
     \<lparr>pw_writer = writer, pw_encoding = None, pw_compressor = None, pw_encoding_buffer = None\<rparr>"

definition enable_encoding :: "string \<Rightarrow> 'c sink \<Rightarrow> 'c sink" where
  "enable_encoding encoding s =
     (if encoding = ''base64''
      then s\<lparr>pw_encoding := Some encoding, pw_encoding_buffer := Some []\<rparr>
      else if encoding = ''quoted-printable'' then s\<lparr>pw_encoding := Some encoding\<rparr>
      else s)"

definition MAX_WBITS :: int where
  "MAX_WBITS = 15"

definition enable_compression :: "'c codec \<Rightarrow> string \<Rightarrow> 'c sink \<Rightarrow> error + 'c sink" where
  "enable_compression api encoding s =
     (if encoding = ''gzip'' then Inr (s\<lparr>pw_compressor := Some (cz_zlib api (16 + MAX_WBITS))\<rparr>)
      else if encoding = ''deflate''
        then Inr (s\<lparr>pw_compressor := Some (cz_zlib api (- MAX_WBITS))\<rparr>)
      else if encoding = ''br''
        then (case cz_brotli api of
                None \<Rightarrow> Inl (RuntimeError ''Can not decode content-encoding: brotli (br).'')
              | Some c \<Rightarrow> Inr (s\<lparr>pw_compressor := Some c\<rparr>))
      else if encoding = ''identity'' then Inr (s\<lparr>pw_compressor := None\<rparr>)
      else Inl (RuntimeError ''Can not decode content-encoding''))"

text \<open>
  \<open>MultipartPayloadWriter.write\<close>; \<open>b2a_qp\<close> is \<open>binascii.b2a_qp\<close>, a parameter.
\<close>

definition mpw_write ::
  "'c codec \<Rightarrow> (bytes \<Rightarrow> bytes) \<Rightarrow> bytes \<Rightarrow> 'c sink \<Rightarrow> error + 'c sink" where
  "mpw_write api b2a_qp chunk s =
     (let (chunk1, comp1) =
            (case pw_compressor s of
               None \<Rightarrow> (chunk, None)
             | Some c \<Rightarrow>
                 if chunk \<noteq> [] then (case cz_compress api c chunk of (out, c') \<Rightarrow> (out, Some c'))
                 else (chunk, Some c));
          s1 = s\<lparr>pw_compressor := comp1\<rparr>
      in if pw_compressor s \<noteq> None \<and> chunk \<noteq> [] \<and> chunk1 = [] then Inr s1
         else if pw_encoding s1 = Some ''base64'' then
           (case pw_encoding_buffer s1 of
              None \<Rightarrow> Inl AttributeError
            | Some buf \<Rightarrow>
                (let encoding_buffer = buf @ chunk1;
                     barrier = (length encoding_buffer div 3) * 3
                 in if encoding_buffer \<noteq> [] \<and> barrier \<noteq> 0
                    then Inr (s1\<lparr>pw_encoding_buffer := Some (drop barrier encoding_buffer),
                                 pw_writer := pw_writer s1
                                   @ [b64encode (take barrier encoding_buffer)]\<rparr>)
                    else Inr (s1\<lparr>pw_encoding_buffer := Some encoding_buffer\<rparr>)))
         else if pw_encoding s1 = Some ''quoted-printable''
           then Inr (s1\<lparr>pw_writer := pw_writer s1 @ [b2a_qp chunk1]\<rparr>)
         else Inr (s1\<lparr>pw_writer := pw_writer s1 @ [chunk1]\<rparr>))"

text \<open>\<open>MultipartPayloadWriter.write_eof\<close>.\<close>

definition mpw_write_eof ::
  "'c codec \<Rightarrow> (bytes \<Rightarrow> bytes) \<Rightarrow> 'c sink \<Rightarrow> error + 'c sink" where
  "mpw_write_eof api b2a_qp s =
     (case (case pw_compressor s of
              None \<Rightarrow> Inr s
            | Some c \<Rightarrow>
                (let chunk = cz_flush api c; s1 = s\<lparr>pw_compressor := None\<rparr>
                 in if chunk \<noteq> [] then mpw_write api b2a_qp chunk s1 else Inr s1)) of
        Inl e \<Rightarrow> Inl e
      | Inr s2 \<Rightarrow>
          (if pw_encoding s2 = Some ''base64'' then
             (case pw_encoding_buffer s2 of
                None \<Rightarrow> Inr s2
              | Some buf \<Rightarrow>
                  if buf \<noteq> [] then Inr (s2\<lparr>pw_writer := pw_writer s2 @ [b64encode buf]\<rparr>)
                  else Inr s2)
           else Inr s2))"

text \<open>
  Feeding a sequence of chunks to the sink, one \<open>write\<close> per chunk; the output on the
  underlying writer after the final \<open>write_eof\<close>; and an input cut into chunks of \<open>n\<close> bytes.
\<close>

fun feed :: "'c codec \<Rightarrow> (bytes \<Rightarrow> bytes) \<Rightarrow> bytes list \<Rightarrow> 'c sink \<Rightarrow> error + 'c sink" where
  "feed api b2a_qp [] s = Inr s"
| "feed api b2a_qp (c # cs) s =
     (case mpw_write api b2a_qp c s of Inl e \<Rightarrow> Inl e | Inr s' \<Rightarrow> feed api b2a_qp cs s')"

definition base64_sink :: "'c sink" where
  "base64_sink = enable_encoding ''base64'' (MultipartPayloadWriter_init [])"

definition sink_output :: "'c codec \<Rightarrow> (bytes \<Rightarrow> bytes) \<Rightarrow> bytes list \<Rightarrow> error + bytes" where
  "sink_output api b2a_qp chunks =
     (case feed api b2a_qp chunks base64_sink of
        Inl e \<Rightarrow> Inl e
      | Inr s \<Rightarrow> (case mpw_write_eof api b2a_qp s of
                    Inl e \<Rightarrow> Inl e
                  | Inr s' \<Rightarrow> Inr (concat (pw_writer s'))))"

function chunks_of :: "nat \<Rightarrow> bytes \<Rightarrow> bytes list" where
  "chunks_of n xs = (if n = 0 \<or> xs = [] then [] else take n xs # chunks_of n (drop n xs))"
  by pat_completeness auto
termination
  by (relation "measure (\<lambda>(n, xs). length xs)") auto

declare chunks_of.simps [simp del]

section \<open>Payloads\<close>

text \<open>
  An attribute of a Python object is unset (reading it raises \<open>AttributeError\<close>), \<open>None\<close>, or
  holds a value. \<open>payload_superclass\<close> has the attributes \<open>value\<close>, \<open>encoding\<close>, \<open>filename\<close>,
  \<open>headers\<close>, \<open>_content_type\<close>, \<open>_size\<close> and, as \<open>__init__\<close> writes it, \<open>headrs\<close>.
\<close>

datatype headers_attr = Unset | PyNone | Hdrs imultidict

record payload =
  pl_value :: bytes
  pl_encoding :: "string option"
  pl_filename :: "string option"
  pl_headrs :: "imultidict option"
  pl_headers :: headers_attr
  pl_content_type :: "string option"
  pl_size :: "nat option"

text \<open>
  \<open>payload_superclass.__init__\<close>. The argument \<open>content_type\<close> is \<open>None\<close> for the default
  \<open>sentinel\<close>, \<open>Some None\<close> for Python's \<open>None\<close> and \<open>Some (Some t)\<close> for a string; a mapping
  is true when it is not empty.
\<close>

definition payload_superclass_init ::
  "bytes \<Rightarrow> imultidict option \<Rightarrow> string option option \<Rightarrow> string option \<Rightarrow> string option
   \<Rightarrow> payload" where
  "payload_superclass_init val headers content_type filename encoding =
     (let (headrs, hattr, content_type1) =
            (case headers of
               None \<Rightarrow> (None, PyNone, content_type)
             | Some h \<Rightarrow>
                 if h \<noteq> [] then
                   (Some h, Unset,
                    if content_type = None \<and> md_contains h CONTENT_TYPE
                    then Some (md_get h CONTENT_TYPE) else content_type)
                 else (None, PyNone, content_type))
      in \<lparr>pl_value = val, pl_encoding = encoding, pl_filename = filename,
           pl_headrs = headrs, pl_headers = hattr,
           pl_content_type = (case content_type1 of None \<Rightarrow> None | Some c \<Rightarrow> c),
           pl_size = None\<rparr>)"

text \<open>The property \<open>content_type\<close>; \<open>guess_type\<close> is \<open>mimetypes.guess_type(...)[0]\<close>.\<close>

definition content_type :: "(string \<Rightarrow> string option) \<Rightarrow> payload \<Rightarrow> string" where
  "content_type guess_type p =
     (case pl_content_type p of
        Some c \<Rightarrow> c
      | None \<Rightarrow>
          (case pl_filename p of
             Some f \<Rightarrow> (case guess_type f of
                          None \<Rightarrow> ''application/octet-stream''
                        | Some mime \<Rightarrow> mime)
           | None \<Rightarrow> ''application/octet-stream''))"


text \<open>\<open>BytesPayload.__init__\<close>; \<open>ctype\<close> is the keyword \<open>content_type\<close>, \<open>None\<close> when it is not given.\<close>

definition BytesPayload_init ::
  "bytes \<Rightarrow> imultidict option \<Rightarrow> string option option \<Rightarrow> string option \<Rightarrow> string option
   \<Rightarrow> payload" where
  "BytesPayload_init val headers ctype filename encoding =
     (payload_superclass_init val headers
        (case ctype of
           None \<Rightarrow> Some (Some ''application/octet-stream'')
         | Some c \<Rightarrow> Some c)
        filename encoding)
     \<lparr>pl_size := Some (length val)\<rparr>"

text \<open>\<open>str.encode('utf-8')\<close> on code points below 256.\<close>

definition encode_utf8 :: "string \<Rightarrow> bytes" where
  "encode_utf8 s =
     concat (map (\<lambda>c. let n = (of_char c :: nat)
                       in if n < 128 then [c] else [char_of (192 + n div 64), char_of (128 + n mod 64)])
                 s)"

text \<open>
  \<open>StringPayload.__init__\<close> as \<open>create_payload\<close> calls it: neither \<open>encoding\<close> nor
  \<open>content_type\<close> is given, so the text is encoded as UTF-8.
\<close>

definition StringPayload_init :: "string \<Rightarrow> imultidict option \<Rightarrow> payload" where
  "StringPayload_init val headers =
     BytesPayload_init (encode_utf8 val) headers (Some (Some ''text/plain; charset=utf-8''))
       None (Some ''utf-8'')"

text \<open>
  The values handed to \<open>create_payload\<close>: bytes, text, or a value of no supported shape.
  File-like and asynchronous sources need a file system and a scheduler and are left out.
\<close>

datatype py_value = VBytes bytes | VStr string | VUnsupported

definition create_payload :: "py_value \<Rightarrow> imultidict option \<Rightarrow> error + payload" where
  "create_payload data headers =
     (case data of
        VBytes b \<Rightarrow> Inr (BytesPayload_init b headers None None None)
      | VStr s \<Rightarrow> Inr (StringPayload_init s headers)
      | VUnsupported \<Rightarrow> Inl LookupError)"

section \<open>The multipart writer\<close>

record writer =
  mw_boundary :: bytes
  mw_content_type :: "string option"
  mw_parts :: "(payload \<times> bytes \<times> string option \<times> string option) list"
  mw_headers :: imultidict

text \<open>
  \<open>_valid_tchar_regex\<close> is \<open>\A[!#$%&'*+\-.^_`|~\w]+\Z\<close> on bytes (\<open>\w\<close> is an ASCII letter, a
  digit or the underscore); \<open>_invalid_qdtext_char_regex\<close> is \<open>[\x00-\x08\x0A-\x1F\x7F]\<close>.
\<close>

definition valid_tchar :: "char \<Rightarrow> bool" where
  "valid_tchar c = (let n = (of_char c :: nat) in
     n \<in> set [33, 35, 36, 37, 38, 39, 42, 43, 45, 46, 94, 95, 96, 124, 126]
     \<or> (48 \<le> n \<and> n \<le> 57) \<or> (65 \<le> n \<and> n \<le> 90) \<or> (97 \<le> n \<and> n \<le> 122))"

definition invalid_qdtext_char :: "char \<Rightarrow> bool" where
  "invalid_qdtext_char c = (let n = (of_char c :: nat) in
     n \<le> 8 \<or> (10 \<le> n \<and> n \<le> 31) \<or> n = 127)"

definition is_ascii :: "char \<Rightarrow> bool" where
  "is_ascii c = ((of_char c :: nat) < 128)"

definition BACKSLASH :: char where "BACKSLASH = CHR 0x5C"
definition DQUOTE :: char where "DQUOTE = CHR 0x22"

text \<open>\<open>bytes.replace(old, new)\<close> for a pattern of one byte.\<close>

definition replace_byte :: "char \<Rightarrow> bytes \<Rightarrow> bytes \<Rightarrow> bytes" where
  "replace_byte old new s = concat (map (\<lambda>c. if c = old then new else [c]) s)"

text \<open>The property \<open>boundary_value\<close>, on the ASCII bytes of \<open>self._boundary\<close>.\<close>

definition boundary_value :: "bytes \<Rightarrow> error + string" where
  "boundary_value b =
     (if b \<noteq> [] \<and> list_all valid_tchar b then
        (if list_all is_ascii b then Inr b else Inl UnicodeDecodeError)
      else if list_ex invalid_qdtext_char b
        then Inl (ValueError ''boundary value contains invalid characters'')
      else
        (let quoted_value_content =
               replace_byte DQUOTE [BACKSLASH, DQUOTE]
                 (replace_byte BACKSLASH [BACKSLASH, BACKSLASH] b)
         in if list_all is_ascii quoted_value_content
            then Inr ([DQUOTE] @ quoted_value_content @ [DQUOTE])
            else Inl UnicodeDecodeError))"

text \<open>
  \<open>MultipartWriter.__init__\<close>; \<open>uuid_hex\<close> is the token \<open>uuid.uuid4().hex\<close> used when no
  boundary is given.
\<close>

definition encode_ascii :: "string \<Rightarrow> error + bytes" where
  "encode_ascii s =
     (if list_all is_ascii s then Inr s
      else Inl (ValueError ''boundary should contains ASCII only chars''))"

definition MultipartWriter_init :: "string \<Rightarrow> string option \<Rightarrow> string \<Rightarrow> error + writer" where
  "MultipartWriter_init subtype boundary uuid_hex =
     (case (case boundary of None \<Rightarrow> encode_ascii uuid_hex | Some b \<Rightarrow> encode_ascii b) of
        Inl e \<Rightarrow> Inl e
      | Inr b \<Rightarrow>
          (case boundary_value b of
             Inl e \<Rightarrow> Inl e
           | Inr bv \<Rightarrow>
               (let ct = ''multipart/'' @ subtype @ ''; boundary='' @ bv
                in Inr \<lparr>mw_boundary = b, mw_content_type = Some ct, mw_parts = [],
                        mw_headers = md_setitem [] CONTENT_TYPE ct\<rparr>)))"

text \<open>
  \<open>append_payload\<close>. \<open>CONTENT_TYPE not in payload.headers\<close> raises \<open>AttributeError\<close> when the
  attribute is unset and \<open>TypeError\<close> when it is \<open>None\<close>.
\<close>

definition classify_encoding :: "imultidict \<Rightarrow> error + string option" where
  "classify_encoding h =
     (case md_getitem h CONTENT_ENCODING of
        Inl _ \<Rightarrow> Inr None
      | Inr e \<Rightarrow>
          (let encoding = lower e
           in if encoding \<in> set [''deflate'', ''gzip'', ''br''] then Inr (Some encoding)
              else if encoding \<in> set ['''', ''identity''] then Inr None
              else Inl (RuntimeError (''unknown content encoding: '' @ encoding))))"

definition classify_te_encoding :: "imultidict \<Rightarrow> error + string option" where
  "classify_te_encoding h =
     (case md_getitem h CONTENT_TRANSFER_ENCODING of
        Inl _ \<Rightarrow> Inr None
      | Inr e \<Rightarrow>
          (let te_encoding = lower e
           in if te_encoding = '''' then Inr None
              else if te_encoding \<in> set [''base64'', ''quoted-printable''] then Inr (Some te_encoding)
              else if te_encoding = ''binary'' then Inr None
              else Inl (RuntimeError (''unknown content transfer encoding: '' @ te_encoding))))"

definition render_headers :: "imultidict \<Rightarrow> bytes" where
  "render_headers h =
     encode_utf8 (concat (map (\<lambda>(k, v). k @ '': '' @ v @ CRLF) (md_items h))) @ CRLF"

definition append_payload ::
  "(string \<Rightarrow> string option) \<Rightarrow> writer \<Rightarrow> payload \<Rightarrow> error + writer \<times> payload" where
  "append_payload guess_type w p =
     (case pl_headers p of
        Unset \<Rightarrow> Inl AttributeError
      | PyNone \<Rightarrow> Inl TypeError
      | Hdrs h0 \<Rightarrow>
          (let h1 = (if \<not> md_contains h0 CONTENT_TYPE
                     then md_setitem h0 CONTENT_TYPE (content_type guess_type p) else h0)
           in case classify_encoding h1 of
                Inl e \<Rightarrow> Inl e
              | Inr encoding \<Rightarrow>
                  (case classify_te_encoding h1 of
                     Inl e \<Rightarrow> Inl e
                   | Inr te_encoding \<Rightarrow>
                       (let h2 = (case pl_size p of
                                    Some n \<Rightarrow>
                                      if encoding = None \<and> te_encoding = None
                                      then md_setitem h1 CONTENT_LENGTH (str_nat n) else h1
                                  | None \<Rightarrow> h1);
                            p' = p\<lparr>pl_headers := Hdrs h2\<rparr>
                        in Inr (w\<lparr>mw_parts := mw_parts w
                                    @ [(p', render_headers h2, encoding, te_encoding)]\<rparr>,
                                p')))))"

text \<open>
  \<open>append\<close>. The object is a payload or a raw value. The result is the writer, the payload
  object as the call leaves it, and the value returned (\<open>None\<close> on the payload branch, which
  ends without a \<open>return\<close>).
\<close>

datatype append_obj = Payload payload | Raw py_value

text \<open>\<open>except LookupError\<close> also catches its subclasses \<open>KeyError\<close> and \<open>IndexError\<close>.\<close>

definition is_lookup_error :: "error \<Rightarrow> bool" where
  "is_lookup_error e = (e = LookupError \<or> e = KeyError \<or> e = IndexError)"

definition append ::
  "(string \<Rightarrow> string option) \<Rightarrow> writer \<Rightarrow> append_obj \<Rightarrow> imultidict option
   \<Rightarrow> error + writer \<times> payload \<times> payload option" where
  "append guess_type w obj headers =
     (let hs = (case headers of None \<Rightarrow> [] | Some h \<Rightarrow> h)
      in case obj of
           Payload p \<Rightarrow>
             (case pl_headers p of
                Unset \<Rightarrow> Inl AttributeError
              | PyNone \<Rightarrow> Inr (w, p\<lparr>pl_headers := Hdrs hs\<rparr>, None)
              | Hdrs h \<Rightarrow> Inr (w, p\<lparr>pl_headers := Hdrs (md_update h hs)\<rparr>, None))
         | Raw v \<Rightarrow>
             (case create_payload v (Some hs) of
                Inl e \<Rightarrow> Inl (if is_lookup_error e then TypeError else e)
              | Inr p \<Rightarrow>
                  (case append_payload guess_type w p of
                     Inl e \<Rightarrow> Inl (if is_lookup_error e then TypeError else e)
                   | Inr (w', p') \<Rightarrow> Inr (w', p', Some p'))))"

text \<open>The property \<open>size\<close> of the writer.\<close>

fun parts_size :: "nat \<Rightarrow> (payload \<times> bytes \<times> string option \<times> string option) list \<Rightarrow> nat option" where
  "parts_size b [] = Some 0"
| "parts_size b ((part, headers, encoding, te_encoding) # ps) =
     (if (encoding \<noteq> None \<and> encoding \<noteq> Some []) \<or> (te_encoding \<noteq> None \<and> te_encoding \<noteq> Some [])
      then None
      else (case pl_size part of
              None \<Rightarrow> None
            | Some n \<Rightarrow>
                (case parts_size b ps of
                   None \<Rightarrow> None
                 | Some rest \<Rightarrow> Some (6 + b + n + length headers + rest))))"

definition mw_size :: "writer \<Rightarrow> nat option" where
  "mw_size w =
     (if mw_parts w = [] then Some 0
      else (case parts_size (length (mw_boundary w)) (mw_parts w) of
              None \<Rightarrow> None
            | Some n \<Rightarrow> Some (n + 6 + length (mw_boundary w))))"

text \<open>
  \<open>MultipartWriter.write\<close>, to a writer that is the list of the chunks written; a bytes
  payload writes its value in one chunk.
\<close>

fun write_parts ::
  "'c codec \<Rightarrow> (bytes \<Rightarrow> bytes) \<Rightarrow> bytes
   \<Rightarrow> (payload \<times> bytes \<times> string option \<times> string option) list \<Rightarrow> bytes list
   \<Rightarrow> error + bytes list" where
  "write_parts api b2a_qp boundary [] out = Inr out"
| "write_parts api b2a_qp boundary ((part, headers, encoding, te_encoding) # ps) out =
     (let out1 = out @ [''--'' @ boundary @ CRLF] @ [headers]
      in case (if encoding \<noteq> None \<or> te_encoding \<noteq> None then
                 (case (case encoding of
                          None \<Rightarrow> Inr (MultipartPayloadWriter_init out1)
                        | Some e \<Rightarrow> enable_compression api e (MultipartPayloadWriter_init out1)) of
                    Inl e \<Rightarrow> Inl e
                  | Inr w1 \<Rightarrow>
                      (case mpw_write api b2a_qp (pl_value part)
                              (case te_encoding of None \<Rightarrow> w1 | Some t \<Rightarrow> enable_encoding t w1) of
                         Inl e \<Rightarrow> Inl e
                       | Inr w3 \<Rightarrow>
                           (case mpw_write_eof api b2a_qp w3 of
                              Inl e \<Rightarrow> Inl e
                            | Inr w4 \<Rightarrow> Inr (pw_writer w4))))
               else Inr (out1 @ [pl_value part])) of
           Inl e \<Rightarrow> Inl e
         | Inr out2 \<Rightarrow> write_parts api b2a_qp boundary ps (out2 @ [CRLF]))"

definition mw_write ::
  "'c codec \<Rightarrow> (bytes \<Rightarrow> bytes) \<Rightarrow> writer \<Rightarrow> bool \<Rightarrow> bytes list \<Rightarrow> error + bytes list" where
  "mw_write api b2a_qp w close_boundary out =
     (if mw_parts w = [] then Inr out
      else (case write_parts api b2a_qp (mw_boundary w) (mw_parts w) out of
              Inl e \<Rightarrow> Inl e
            | Inr out' \<Rightarrow>
                Inr (if close_boundary then out' @ [''--'' @ mw_boundary w @ ''--'' @ CRLF]
                     else out')))"

section \<open>Content-Disposition\<close>

text \<open>
  Modelled from the spec: the character sets \<open>TOKEN\<close> and \<open>CHAR\<close> of \<open>helpers\<close> are not among
  the sources. The spec asks for a valid HTTP token: the ASCII characters that are neither
  controls nor separators. \<open>CHAR\<close> (here \<open>CHAR_ascii\<close>) is any ASCII character.
\<close>

definition SEPARATORS :: "char list" where
  "SEPARATORS = ''()<>@,;:'' @ [BACKSLASH, DQUOTE] @ ''/[]?={} '' @ [CHR 0x09]"

definition TOKEN :: "char \<Rightarrow> bool" where
  "TOKEN c = (let n = (of_char c :: nat) in 32 \<le> n \<and> n < 127 \<and> c \<notin> set SEPARATORS)"

definition CHAR_ascii :: "char \<Rightarrow> bool" where
  "CHAR_ascii c = ((of_char c :: nat) < 128)"

definition APOSTROPHE :: char where "APOSTROPHE = CHR 0x27"

text \<open>The helpers nested in \<open>parse_content_disposition\<close>.\<close>

definition is_token :: "string \<Rightarrow> bool" where
  "is_token s = (s \<noteq> [] \<and> list_all TOKEN s)"

text \<open>\<open>is_quoted\<close> reads \<open>string[0]\<close> and \<open>string[-1]\<close>: on the empty string it raises.\<close>

definition is_quoted :: "string \<Rightarrow> error + bool" where
  "is_quoted s = (if s = [] then Inl IndexError else Inr (hd s = DQUOTE \<and> last s = DQUOTE))"

definition is_rfc5987 :: "string \<Rightarrow> bool" where
  "is_rfc5987 s = (is_token s \<and> count_list s APOSTROPHE = 2)"

definition endswith_star :: "string \<Rightarrow> bool" where
  "endswith_star s = (s \<noteq> [] \<and> last s = CHR ''*'')"

definition is_extended_param :: "string \<Rightarrow> bool" where
  "is_extended_param s = endswith_star s"

definition is_continuous_param :: "string \<Rightarrow> bool" where
  "is_continuous_param s =
     (if CHR ''*'' \<notin> set s then False
      else (let pos = length (takeWhile (\<lambda>c. c \<noteq> CHR ''*'') s) + 1;
                substring = (if endswith_star s then take (length s - 1 - pos) (drop pos s)
                             else drop pos s)
            in isdigit substring))"

fun unescape :: "string \<Rightarrow> string" where
  "unescape (c # d # rest) =
     (if c = BACKSLASH \<and> CHAR_ascii d then d # unescape rest else c # unescape (d # rest))"
| "unescape [c] = [c]"
| "unescape [] = []"

text \<open>\<open>s.split(sep)\<close> for a separator of one character, and the pieces around the first
  separator (\<open>s.split(sep, 1)\<close> when \<open>sep\<close> occurs in \<open>s\<close>).\<close>

fun split_on :: "char \<Rightarrow> string \<Rightarrow> string list" where
  "split_on sep [] = [[]]"
| "split_on sep (x # xs) =
     (if x = sep then [] # split_on sep xs
      else (case split_on sep xs of
              [] \<Rightarrow> [[x]]
            | s # ss \<Rightarrow> (x # s) # ss))"

definition before_first :: "char \<Rightarrow> string \<Rightarrow> string" where
  "before_first sep s = takeWhile (\<lambda>c. c \<noteq> sep) s"

definition after_first :: "char \<Rightarrow> string \<Rightarrow> string" where
  "after_first sep s = drop 1 (dropWhile (\<lambda>c. c \<noteq> sep) s)"

text \<open>\<open>value[1:-1]\<close> and \<open>lstrip('\\/')\<close>.\<close>

definition inner :: "string \<Rightarrow> string" where
  "inner s = butlast (drop 1 s)"

definition lstrip_slashes :: "string \<Rightarrow> string" where
  "lstrip_slashes s = dropWhile (\<lambda>c. c = BACKSLASH \<or> c = CHR ''/'') s"

text \<open>
  After \<open>key, value = item.split('=', 1)\<close>: \<open>key.lower().strip()\<close> and \<open>value.lstrip()\<close>.
\<close>

definition item_key :: "string \<Rightarrow> string" where
  "item_key item = strip (lower (before_first (CHR ''='') item))"

definition item_value :: "string \<Rightarrow> string" where
  "item_value item = lstrip (after_first (CHR ''='') item)"

text \<open>
  One turn of the loop over \<open>parts\<close>, for the item just popped: the header is given up
  (\<open>return None, {}\<close>), the item is skipped (\<open>continue\<close>), a value is stored under the key, a
  value merged with the next segment is stored (and that segment popped), or an exception
  leaves the function. \<open>unquote\<close> is \<open>urllib.parse.unquote(value, encoding, 'strict')\<close>, a
  parameter.
\<close>

datatype turn = GiveUp | Skip | Store string string | StoreMerged string string | Raise error

definition parse_item ::
  "(string \<Rightarrow> string \<Rightarrow> error + string) \<Rightarrow> (string \<times> string) list \<Rightarrow> string \<Rightarrow> string list
   \<Rightarrow> turn" where
  "parse_item unquote params item parts =
     (if CHR ''='' \<notin> set item then GiveUp
      else
        (let key = item_key item;
             val = item_value item
         in if key \<in> set (map fst params) then GiveUp
            else if \<not> is_token key then Skip
            else if is_continuous_param key then
              (case is_quoted val of
                 Inl e \<Rightarrow> Raise e
               | Inr True \<Rightarrow> Store key (unescape (inner val))
               | Inr False \<Rightarrow> if \<not> is_token val then Skip else Store key val)
            else if is_extended_param key then
              (if is_rfc5987 val then
                 (let encoding = before_first APOSTROPHE val;
                      v = after_first APOSTROPHE (after_first APOSTROPHE val)
                  in case unquote v (if encoding = [] then ''utf-8'' else encoding) of
                       Inl UnicodeDecodeError \<Rightarrow> Skip
                     | Inl e \<Rightarrow> Raise e
                     | Inr v' \<Rightarrow> Store key v')
               else Skip)
            else
              (case is_quoted val of
                 Inl e \<Rightarrow> Raise e
               | Inr True \<Rightarrow> GiveUp
               | Inr False \<Rightarrow>
                   if is_token val then Store key val
                   else (case parts of
                           [] \<Rightarrow> GiveUp
                         | p0 # _ \<Rightarrow>
                             (case is_quoted (val @ '';'' @ p0) of
                                Inl e \<Rightarrow> Raise e
                              | Inr True \<Rightarrow>
                                  StoreMerged key
                                    (unescape (lstrip_slashes (inner (val @ '';'' @ p0))))
                              | Inr False \<Rightarrow> GiveUp)))))"

text \<open>The loop \<open>while parts\<close>; \<open>None\<close> is \<open>return None, {}\<close>.\<close>

fun parse_params ::
  "(string \<Rightarrow> string \<Rightarrow> error + string) \<Rightarrow> string list \<Rightarrow> (string \<times> string) list
   \<Rightarrow> error + (string \<times> string) list option" where
  "parse_params unquote [] params = Inr (Some params)"
| "parse_params unquote (item # parts) params =
     (case parse_item unquote params item parts of
        GiveUp \<Rightarrow> Inr None
      | Skip \<Rightarrow> parse_params unquote parts params
      | Store key v \<Rightarrow> parse_params unquote parts (params @ [(key, v)])
      | StoreMerged key v \<Rightarrow> parse_params unquote (drop 1 parts) (params @ [(key, v)])
      | Raise e \<Rightarrow> Inl e)"

definition parse_content_disposition ::
  "(string \<Rightarrow> string \<Rightarrow> error + string) \<Rightarrow> string
   \<Rightarrow> error + string option \<times> (string \<times> string) list" where
  "parse_content_disposition unquote header =
     (if header = [] then Inr (None, [])
      else (case split_on (CHR '';'') header of
              [] \<Rightarrow> Inr (None, [])
            | disptype # parts \<Rightarrow>
                if \<not> is_token disptype then Inr (None, [])
                else (case parse_params unquote parts [] of
                        Inl e \<Rightarrow> Inl e
                      | Inr None \<Rightarrow> Inr (None, [])
                      | Inr (Some params) \<Rightarrow> Inr (Some (lower disptype), params))))"

text \<open>
  \<open>content_disposition_filename\<close>. The segments are the items under keys starting with
  \<open>filename*\<close>, sorted as pairs of strings; \<open>collect_parts\<close> is the loop over them.
\<close>

fun collect_parts :: "nat \<Rightarrow> (string \<times> string) list \<Rightarrow> string list" where
  "collect_parts num [] = []"
| "collect_parts num ((key, v) # fnparams) =
     (let tail0 = after_first (CHR ''*'') key;
          tail1 = (if endswith_star tail0 then butlast tail0 else tail0)
      in if tail1 = str_nat num then v # collect_parts (Suc num) fnparams else [])"

definition content_disposition_filename ::
  "(string \<Rightarrow> string \<Rightarrow> error + string) \<Rightarrow> (string \<times> string) list \<Rightarrow> string
   \<Rightarrow> error + string option" where
  "content_disposition_filename unquote params name =
     (let name_suf = name @ ''*''
      in if params = [] then Inr None
         else (case map_of params name_suf of
                 Some v \<Rightarrow> Inr (Some v)
               | None \<Rightarrow>
                   (case map_of params name of
                      Some v \<Rightarrow> Inr (Some v)
                    | None \<Rightarrow>
                        (let fnparams = sort (filter (\<lambda>(key, v). prefix ''filename*'' key) params);
                             parts = collect_parts 0 fnparams
                         in if parts = [] then Inr None
                            else (let v = concat parts
                                  in if APOSTROPHE \<in> set v then
                                       (if count_list v APOSTROPHE < 2
                                        then Inl (ValueError ''not enough values to unpack'')
                                        else (let encoding = before_first APOSTROPHE v;
                                                  rest = after_first APOSTROPHE
                                                           (after_first APOSTROPHE v)
                                              in case unquote rest
                                                     (if encoding = [] then ''utf-8'' else encoding) of
                                                   Inl e \<Rightarrow> Inl e
                                                 | Inr d \<Rightarrow> Inr (Some d)))
                                     else Inr (Some v))))))"

section \<open>Vocabulary of the statements\<close>

text \<open>
  The quoted form in the spec's words: a double-quoted string in which every backslash and
  every double quote is preceded by a backslash.
\<close>

definition spec_quoted_string :: "bytes \<Rightarrow> string" where
  "spec_quoted_string b =
     [DQUOTE] @ concat (map (\<lambda>c. if c = BACKSLASH \<or> c = DQUOTE then [BACKSLASH, c] else [c]) b)
       @ [DQUOTE]"

text \<open>The writer that \<open>MultipartWriter.__init__\<close> returns for a boundary and its rendering.\<close>

definition writer_with :: "string \<Rightarrow> bytes \<Rightarrow> string \<Rightarrow> writer" where
  "writer_with subtype b bv =
     \<lparr>mw_boundary = b,
      mw_content_type = Some (''multipart/'' @ subtype @ ''; boundary='' @ bv),
      mw_parts = [],
      mw_headers = [(CONTENT_TYPE, [''multipart/'' @ subtype @ ''; boundary='' @ bv])]\<rparr>"

text \<open>
  What \<open>append_payload\<close> records for a bytes payload constructed without headers: the
  payload with its Content-Type and Content-Length, the rendered header block, and no
  transform.
\<close>

definition recorded_part :: "bytes \<Rightarrow> payload \<times> bytes \<times> string option \<times> string option" where
  "recorded_part v =
     ((BytesPayload_init v None None None None)
        \<lparr>pl_headers := Hdrs [(CONTENT_TYPE, [''application/octet-stream'']),
                             (CONTENT_LENGTH, [str_nat (length v)])]\<rparr>,
      render_headers [(CONTENT_TYPE, [''application/octet-stream'']),
                      (CONTENT_LENGTH, [str_nat (length v)])],
      None, None)"




section \<open>Example inputs\<close>

text \<open>
  A transport holding chunks still to be delivered, a reader as \<open>__init__\<close> leaves it for a
  given declared length, and the readers, writers, payloads and headers the theorems are
  applied to.
\<close>

definition stream_of :: "bytes list \<Rightarrow> transport" where
  "stream_of chunks = \<lparr>pending = chunks, oplog = []\<rparr>"

definition new_reader :: "bytes \<Rightarrow> int option \<Rightarrow> transport \<Rightarrow> reader" where
  "new_reader boundary len content =
     \<lparr>bp_headers = [], bp_boundary = boundary, bp_content = content,
               bp_at_eof = False, bp_length = len, bp_read_bytes = 0, bp_unread = [],
               bp_prev_chunk = None, bp_content_eof = 0\<rparr>"

definition empty_part_stream :: transport where
  "empty_part_stream = stream_of [CRLF @ ''--X--'' @ CRLF]"

definition length_reader :: reader where
  "length_reader = new_reader ''--X'' (Some 5) (stream_of [''hello'' @ CRLF @ ''--X--'' @ CRLF])"

definition zero_length_reader :: reader where
  "zero_length_reader = (new_reader ''--X'' (Some 0) empty_part_stream)
     \<lparr>bp_headers := [(''Content-Length'', [''0''])]\<rparr>"

definition done_reader :: reader where
  "done_reader = (new_reader ''--X'' None (stream_of [''--X--'' @ CRLF]))\<lparr>bp_at_eof := True\<rparr>"

definition straddle_reader :: reader where
  "straddle_reader =
     new_reader ''--XYZ'' None (stream_of [''hello'' @ CRLF @ ''-'', ''-XYZ--'' @ CRLF])"


definition no_guess :: "string \<Rightarrow> string option" where
  "no_guess f = None"


definition demo_writer :: writer where
  "demo_writer = writer_with ''mixed'' ''X'' ''X''"

definition token_headers :: imultidict where
  "token_headers = [(''X-Token'', [''1''])]"

definition disposition_payload :: payload where
  "disposition_payload =
     (BytesPayload_init ''hello'' None None None None)
       \<lparr>pl_headers := Hdrs [(CONTENT_DISPOSITION, [''attachment''])]\<rparr>"

text \<open>A stand-in for \<open>unquote\<close> on values without percent escapes.\<close>

definition plain_unquote :: "string \<Rightarrow> string \<Rightarrow> error + string" where
  "plain_unquote v encoding = Inr v"

definition eleven_segments :: "(string \<times> string) list" where
  "eleven_segments =
     [(''filename*0'', ''a''), (''filename*1'', ''b''), (''filename*2'', ''c''),
      (''filename*3'', ''d''), (''filename*4'', ''e''), (''filename*5'', ''f''),
      (''filename*6'', ''g''), (''filename*7'', ''h''), (''filename*8'', ''i''),
      (''filename*9'', ''j''), (''filename*10'', ''k'')]"

section \<open>Writing recorded parts and reading them back\<close>

text \<open>The chunks one part without transforms puts on the wire.\<close>

definition wire_part ::
  "bytes \<Rightarrow> payload \<times> bytes \<times> string option \<times> string option \<Rightarrow> bytes list" where
  "wire_part b part = [''--'' @ b @ CRLF, fst (snd part), pl_value (fst part), CRLF]"

text \<open>
  Reading a written stream back, part by part. The header block of a part is consumed
  outside the part reader, which is handed the part's headers and the stream positioned at
  the body; after the part has been read, the next part starts where the reader left the
  transport. A part is \<open>sized\<close> when it has no transform, a body that is not empty, and a
  Content-Length header that gives the length of the body.
\<close>

definition sized_part :: "payload \<times> bytes \<times> string option \<times> string option \<Rightarrow> bool" where
  "sized_part part =
     (fst (snd (snd part)) = None \<and> snd (snd (snd part)) = None \<and> pl_value (fst part) \<noteq> []
      \<and> (case pl_headers (fst part) of
            Hdrs h \<Rightarrow> md_get h CONTENT_LENGTH = Some (str_nat (length (pl_value (fst part))))
          | _ \<Rightarrow> False))"

fun read_back ::
  "bytes \<Rightarrow> (payload \<times> bytes \<times> string option \<times> string option) list \<Rightarrow> bytes
   \<Rightarrow> bytes list option" where
  "read_back b [] stream = Some []"
| "read_back b (part # ps) stream =
     (case pl_headers (fst part) of
        Hdrs h \<Rightarrow>
          (case BodyPartReader_init (''--'' @ b) h
                  (stream_of [drop (length (''--'' @ b @ CRLF @ fst (snd part))) stream]) of
             Inl e \<Rightarrow> None
           | Inr r \<Rightarrow>
               (case read r of
                  None \<Rightarrow> None
                | Some (body, r') \<Rightarrow>
                    (case read_back b ps (concat (pending (bp_content r'))) of
                       None \<Rightarrow> None
                     | Some bodies \<Rightarrow> Some (body # bodies))))
      | _ \<Rightarrow> None)"

section \<open>Facts about the transport and the reader\<close>

lemma oplog_t_read: "oplog (snd (t_read n t)) = oplog t @ [OpRead n]"
  by (simp add: t_read_def split: list.splits)

lemma oplog_t_readline: "oplog (snd (t_readline t)) = oplog t @ [OpReadline]"
  by (simp add: t_readline_def split: prod.splits)

lemma oplog_t_unread_data: "oplog (t_unread_data d t) = oplog t @ [OpUnread d]"
  by (simp add: t_unread_data_def)

lemma t_read_length: "length (fst (t_read n t)) \<le> n"
  by (simp add: t_read_def split: list.splits)


lemma split_line_CRLF: "split_line (CRLF @ xs) = (CRLF, Some xs)"
  by (simp add: CRLF_def CR_def LF_def)

lemma t_readline_CRLF:
  "pending t = (CRLF @ xs) # cs \<Longrightarrow>
   t_readline t = (CRLF, t\<lparr>pending := (if xs = [] then cs else xs # cs),
                            oplog := oplog t @ [OpReadline]\<rparr>)"
  by (simp add: t_readline_def split_line_CRLF)

lemma oplog_from_length:
  "\<exists>ops. oplog (bp_content (snd (read_chunk_from_length sz r))) = oplog (bp_content r) @ ops
     \<and> OpReadline \<notin> set ops"
proof (cases "bp_length r")
  case None
  then show ?thesis by (simp add: read_chunk_from_length_def)
next
  case (Some L)
  then show ?thesis
    using oplog_t_read [of "nat (min (int sz) (L - int (bp_read_bytes r)))" "bp_content r"]
    by (auto simp add: read_chunk_from_length_def Let_def split: prod.splits)
qed

lemma from_stream_unfold:
  assumes "(case bp_prev_chunk r of None \<Rightarrow> t_read sz (bp_content r)
                        | Some p \<Rightarrow> (p, bp_content r)) = (prev, c1)"
    and "t_read sz c1 = (chunk, c2)"
    and "(if bp_prev_chunk r = None then py_find (prev @ chunk) (CRLF @ bp_boundary r) 0
          else py_find (prev @ chunk) (CRLF @ bp_boundary r)
                 (max 0 (length prev - length (CRLF @ bp_boundary r)))) = idx"
  shows "read_chunk_from_stream sz r =
    (case idx of
       None \<Rightarrow>
         (prev, r\<lparr>bp_content := c2,
                   bp_content_eof := bp_content_eof r + (if t_at_eof c2 then 1 else 0),
                   bp_prev_chunk := Some chunk\<rparr>)
     | Some i \<Rightarrow>
         (if i < sz then take i prev else prev,
          r\<lparr>bp_content := t_unread_data (drop i (prev @ chunk)) c2,
            bp_content_eof := bp_content_eof r + (if t_at_eof c2 then 1 else 0),
            bp_at_eof :=
              (if take (i - length (if i < sz then take i prev else prev))
                    (drop (length (if i < sz then take i prev else prev)) (prev @ chunk)) = []
               then True else bp_at_eof r),
            bp_prev_chunk :=
              Some (take (i - length (if i < sz then take i prev else prev))
                     (drop (length (if i < sz then take i prev else prev)) (prev @ chunk)))\<rparr>))"
  unfolding read_chunk_from_stream_def Let_def assms(1) prod.case assms(2) assms(3) ..

lemma oplog_from_stream:
  "\<exists>ops. oplog (bp_content (snd (read_chunk_from_stream sz r))) = oplog (bp_content r) @ ops
     \<and> OpReadline \<notin> set ops"
proof -
  obtain prev c1 where pc: "(case bp_prev_chunk r of None \<Rightarrow> t_read sz (bp_content r)
                        | Some p \<Rightarrow> (p, bp_content r)) = (prev, c1)"
    by (meson surj_pair)
  have "\<exists>ops. oplog c1 = oplog (bp_content r) @ ops \<and> OpReadline \<notin> set ops"
  proof (cases "bp_prev_chunk r")
    case None
    then show ?thesis using pc oplog_t_read [of sz "bp_content r"] by simp
  next
    case (Some p)
    then show ?thesis using pc by simp
  qed
  then obtain ops1 where l1: "oplog c1 = oplog (bp_content r) @ ops1" "OpReadline \<notin> set ops1"
    by blast
  obtain chunk c2 where cc: "t_read sz c1 = (chunk, c2)"
    by (meson surj_pair)
  have l2: "oplog c2 = oplog (bp_content r) @ ops1 @ [OpRead sz]"
    using cc oplog_t_read [of sz c1] l1(1) by simp
  define idx where "idx = (if bp_prev_chunk r = None then py_find (prev @ chunk) (CRLF @ bp_boundary r) 0
          else py_find (prev @ chunk) (CRLF @ bp_boundary r)
                 (max 0 (length prev - length (CRLF @ bp_boundary r))))"
  note u = from_stream_unfold [OF pc cc idx_def [symmetric]]
  show ?thesis
  proof (cases idx)
    case None
    then have "oplog (bp_content (snd (read_chunk_from_stream sz r))) =
        oplog (bp_content r) @ (ops1 @ [OpRead sz])"
      using u l2 by simp
    moreover have "OpReadline \<notin> set (ops1 @ [OpRead sz])" using l1(2) by simp
    ultimately show ?thesis by blast
  next
    case (Some i)
    then have "oplog (bp_content (snd (read_chunk_from_stream sz r))) =
        oplog (bp_content r) @ (ops1 @ [OpRead sz, OpUnread (drop i (prev @ chunk))])"
      using u l2 by (simp add: oplog_t_unread_data)
    moreover have "OpReadline \<notin> set (ops1 @ [OpRead sz, OpUnread (drop i (prev @ chunk))])"
      using l1(2) by simp
    ultimately show ?thesis by blast
  qed
qed

lemma read_chunk_not_eof:
  assumes "\<not> bp_at_eof r"
    and "(if bp_length r \<noteq> None \<and> bp_length r \<noteq> Some 0
          then read_chunk_from_length n r else read_chunk_from_stream n r) = (chunk, r1)"
  shows "read_chunk n r =
    (chunk,
     if bp_at_eof r1 \<or> Some (int (bp_read_bytes r1 + length chunk)) = bp_length r1
     then r1\<lparr>bp_read_bytes := bp_read_bytes r1 + length chunk, bp_at_eof := True,
            bp_content := snd (t_readline (bp_content r1))\<rparr>
     else r1\<lparr>bp_read_bytes := bp_read_bytes r1 + length chunk\<rparr>)"
  using assms unfolding read_chunk_def Let_def by (cases "bp_at_eof r1") simp_all

lemma read_chunk_oplog:
  assumes "\<not> bp_at_eof r" and "read_chunk n r = (c, r')"
  shows "\<exists>ops. oplog (bp_content r') =
           oplog (bp_content r) @ ops @ (if bp_at_eof r' then [OpReadline] else [])
         \<and> OpReadline \<notin> set ops"
proof -
  obtain chunk r1 where cr: "(if bp_length r \<noteq> None \<and> bp_length r \<noteq> Some 0
          then read_chunk_from_length n r else read_chunk_from_stream n r) = (chunk, r1)"
    by (meson surj_pair)
  have "\<exists>ops. oplog (bp_content (snd (chunk, r1))) = oplog (bp_content r) @ ops \<and> OpReadline \<notin> set ops"
    unfolding cr [symmetric] using oplog_from_length [of n r] oplog_from_stream [of n r]
    by (simp only: split: if_splits) simp
  then obtain ops where ops: "oplog (bp_content r1) = oplog (bp_content r) @ ops"
     "OpReadline \<notin> set ops" by auto
  have r': "r' = (if bp_at_eof r1 \<or> Some (int (bp_read_bytes r1 + length chunk)) = bp_length r1
     then r1\<lparr>bp_read_bytes := bp_read_bytes r1 + length chunk, bp_at_eof := True,
            bp_content := snd (t_readline (bp_content r1))\<rparr>
     else r1\<lparr>bp_read_bytes := bp_read_bytes r1 + length chunk\<rparr>)"
    using read_chunk_not_eof [OF assms(1) cr] assms(2) by simp
  show ?thesis
  proof (cases "bp_at_eof r1 \<or> Some (int (bp_read_bytes r1 + length chunk)) = bp_length r1")
    case True
    then have "oplog (bp_content r') = oplog (bp_content r) @ ops @ [OpReadline]" "bp_at_eof r'"
      using r' ops(1) oplog_t_readline [of "bp_content r1"] by simp_all
    then show ?thesis using ops(2) by auto
  next
    case False
    then have "oplog (bp_content r') = oplog (bp_content r) @ ops" "\<not> bp_at_eof r'"
      using r' ops(1) by simp_all
    then show ?thesis using ops(2) by auto
  qed
qed

lemma read_chunk_at_eof: "bp_at_eof r \<Longrightarrow> read_chunk n r = ([], r)"
  by (simp add: read_chunk_def)

lemma read_chunks_at_eof:
  "bp_at_eof r \<Longrightarrow> read_chunks ns r = (replicate (length ns) [], r)"
  by (induction ns) (simp_all add: read_chunk_at_eof)

declare read_loop.simps [code]






lemma from_stream_keeps:
  "bp_length (snd (read_chunk_from_stream sz r)) = bp_length r"
  "bp_read_bytes (snd (read_chunk_from_stream sz r)) = bp_read_bytes r"
  by (simp_all add: read_chunk_from_stream_def Let_def split: prod.split option.split)

lemmas demo_defs = length_reader_def zero_length_reader_def done_reader_def straddle_reader_def
  new_reader_def stream_of_def empty_part_stream_def CRLF_def CR_def LF_def

section \<open>Reads by declared length\<close>

text \<open>
  Claim C8, as amended. For every part reader that has not reached end-of-part and whose
  declared content-length \<open>L\<close> is positive (with no more than \<open>L\<close> bytes read so far), one
  \<open>read_chunk(sz)\<close> returns the bytes of a single transport read of
  \<open>min(sz, L - bytes_read)\<close> bytes, so at most that many; the running total grows by the
  length of the chunk; end-of-part is set exactly when the total equals \<open>L\<close>; the
  boundary-scanning buffer is untouched, and the only transport operations are that one
  read and, when end-of-part is set, the one trailing \<open>readline\<close>.
  A declared length of 0 is not read by count: \<open>read_chunk(sz)\<close> returns the chunk that
  boundary scanning (\<open>_read_chunk_from_stream\<close>) yields and keeps the scan's buffer; the
  running total grows by the length of that chunk; end-of-part is set exactly when the scan
  sets it or the running total after the call is 0; and the transport operations are those
  of the scan and, when end-of-part is set, the one trailing \<open>readline\<close>.
\<close>

theorem declared_length_read:
  assumes ne: "\<not> bp_at_eof r" and len: "bp_length r = Some L"
  shows "(0 < L \<and> int (bp_read_bytes r) \<le> L \<longrightarrow>
      (case read_chunk sz r of (chunk, r') \<Rightarrow>
        chunk = fst (t_read (nat (min (int sz) (L - int (bp_read_bytes r)))) (bp_content r))
      \<and> int (length chunk) \<le> min (int sz) (L - int (bp_read_bytes r))
      \<and> bp_read_bytes r' = bp_read_bytes r + length chunk
      \<and> (bp_at_eof r' \<longleftrightarrow> int (bp_read_bytes r') = L)
      \<and> bp_prev_chunk r' = bp_prev_chunk r
      \<and> oplog (bp_content r') =
          oplog (bp_content r) @ OpRead (nat (min (int sz) (L - int (bp_read_bytes r))))
            # (if bp_at_eof r' then [OpReadline] else [])))
    \<and> (L = 0 \<longrightarrow>
      (case read_chunk sz r of (chunk, r') \<Rightarrow>
         case read_chunk_from_stream sz r of (scanned, r0) \<Rightarrow>
           chunk = scanned
         \<and> bp_read_bytes r' = bp_read_bytes r + length scanned
         \<and> (bp_at_eof r' \<longleftrightarrow> bp_at_eof r0 \<or> bp_read_bytes r' = 0)
         \<and> bp_prev_chunk r' = bp_prev_chunk r0
         \<and> oplog (bp_content r') =
             oplog (bp_content r0) @ (if bp_at_eof r' then [OpReadline] else [])))"
proof (intro conjI impI)
  assume "0 < L \<and> int (bp_read_bytes r) \<le> L"
  then have pos: "0 < L" and inv: "int (bp_read_bytes r) \<le> L" by simp_all
  define n where "n = nat (min (int sz) (L - int (bp_read_bytes r)))"
  obtain chunk c where tr: "t_read n (bp_content r) = (chunk, c)" by (meson surj_pair)
  have fl: "read_chunk_from_length sz r = (chunk, r\<lparr>bp_content := c\<rparr>)"
    using len tr by (simp add: read_chunk_from_length_def n_def)
  have disp: "(if bp_length r \<noteq> None \<and> bp_length r \<noteq> Some 0
          then read_chunk_from_length sz r else read_chunk_from_stream sz r)
        = (chunk, r\<lparr>bp_content := c\<rparr>)"
    using len pos fl by simp
  note rc = read_chunk_not_eof [OF ne disp]
  have ln: "length chunk \<le> n" using t_read_length [of n "bp_content r"] tr by simp
  have nn: "int n = min (int sz) (L - int (bp_read_bytes r))"
    using inv by (simp add: n_def)
  have lg: "oplog c = oplog (bp_content r) @ [OpRead n]"
    using oplog_t_read [of n "bp_content r"] tr by simp
  define r' where "r' = snd (read_chunk sz r)"
  have rc': "read_chunk sz r = (chunk, r')" using rc by (simp add: r'_def)
  have c0: "chunk = fst (t_read n (bp_content r))" using tr by simp
  have c1: "int (length chunk) \<le> min (int sz) (L - int (bp_read_bytes r))"
    using ln nn by linarith
  have c2: "bp_read_bytes r' = bp_read_bytes r + length chunk"
    unfolding r'_def rc by simp
  have c3: "bp_at_eof r' \<longleftrightarrow> int (bp_read_bytes r') = L"
    unfolding r'_def rc using ne len by simp
  have c4: "bp_prev_chunk r' = bp_prev_chunk r"
    unfolding r'_def rc by simp
  have c5: "oplog (bp_content r') =
        oplog (bp_content r) @ OpRead n # (if bp_at_eof r' then [OpReadline] else [])"
    unfolding r'_def rc using ne len lg oplog_t_readline [of c] by simp
  show "case read_chunk sz r of (chunk, r') \<Rightarrow>
        chunk = fst (t_read (nat (min (int sz) (L - int (bp_read_bytes r)))) (bp_content r))
      \<and> int (length chunk) \<le> min (int sz) (L - int (bp_read_bytes r))
      \<and> bp_read_bytes r' = bp_read_bytes r + length chunk
      \<and> (bp_at_eof r' \<longleftrightarrow> int (bp_read_bytes r') = L)
      \<and> bp_prev_chunk r' = bp_prev_chunk r
      \<and> oplog (bp_content r') =
          oplog (bp_content r) @ OpRead (nat (min (int sz) (L - int (bp_read_bytes r))))
            # (if bp_at_eof r' then [OpReadline] else [])"
    unfolding rc' prod.case n_def [symmetric] using c0 c1 c2 c3 c4 c5 by blast
next
  assume z: "L = 0"
  obtain scanned r0 where fs: "read_chunk_from_stream sz r = (scanned, r0)" by (meson surj_pair)
  have disp: "(if bp_length r \<noteq> None \<and> bp_length r \<noteq> Some 0
          then read_chunk_from_length sz r else read_chunk_from_stream sz r) = (scanned, r0)"
    using len z fs by simp
  note rc = read_chunk_not_eof [OF ne disp]
  have l0: "bp_length r0 = Some 0" and rb: "bp_read_bytes r0 = bp_read_bytes r"
    using from_stream_keeps [of sz r] fs len z by simp_all
  define r' where "r' = snd (read_chunk sz r)"
  have rc': "read_chunk sz r = (scanned, r')" using rc by (simp add: r'_def)
  have c2: "bp_read_bytes r' = bp_read_bytes r + length scanned"
    unfolding r'_def rc using rb by simp
  have c3: "bp_at_eof r' \<longleftrightarrow> bp_at_eof r0 \<or> bp_read_bytes r' = 0"
  proof -
    have "int (bp_read_bytes r) + int (length scanned) = 0
            \<longleftrightarrow> bp_read_bytes r + length scanned = 0"
      by linarith
    then show ?thesis unfolding r'_def rc using l0 rb by auto
  qed
  have c4: "bp_prev_chunk r' = bp_prev_chunk r0"
    unfolding r'_def rc by simp
  have c5: "oplog (bp_content r') =
        oplog (bp_content r0) @ (if bp_at_eof r' then [OpReadline] else [])"
    unfolding r'_def rc using l0 rb oplog_t_readline [of "bp_content r0"] by auto
  show "case read_chunk sz r of (chunk, r') \<Rightarrow>
         case read_chunk_from_stream sz r of (scanned, r0) \<Rightarrow>
           chunk = scanned
         \<and> bp_read_bytes r' = bp_read_bytes r + length scanned
         \<and> (bp_at_eof r' \<longleftrightarrow> bp_at_eof r0 \<or> bp_read_bytes r' = 0)
         \<and> bp_prev_chunk r' = bp_prev_chunk r0
         \<and> oplog (bp_content r') =
             oplog (bp_content r0) @ (if bp_at_eof r' then [OpReadline] else [])"
    unfolding rc' fs prod.case using c2 c3 c4 c5 by blast
qed

text \<open>
  The theorem applied to a reader with a declared length of 5 and a request of 3 bytes, and
  to a reader with a declared length of 0 and a request of 64 bytes.
\<close>

theorem declared_length_read_witness:
  "(case read_chunk 3 length_reader of (chunk, r') \<Rightarrow>
      chunk = fst (t_read (nat (min (int 3) (5 - int (bp_read_bytes length_reader))))
                     (bp_content length_reader))
    \<and> int (length chunk) \<le> min (int 3) (5 - int (bp_read_bytes length_reader))
    \<and> bp_read_bytes r' = bp_read_bytes length_reader + length chunk
    \<and> (bp_at_eof r' \<longleftrightarrow> int (bp_read_bytes r') = 5)
    \<and> bp_prev_chunk r' = bp_prev_chunk length_reader
    \<and> oplog (bp_content r') =
        oplog (bp_content length_reader)
          @ OpRead (nat (min (int 3) (5 - int (bp_read_bytes length_reader))))
          # (if bp_at_eof r' then [OpReadline] else []))
   \<and> (case read_chunk 64 zero_length_reader of (chunk, r') \<Rightarrow>
         case read_chunk_from_stream 64 zero_length_reader of (scanned, r0) \<Rightarrow>
           chunk = scanned
         \<and> bp_read_bytes r' = bp_read_bytes zero_length_reader + length scanned
         \<and> (bp_at_eof r' \<longleftrightarrow> bp_at_eof r0 \<or> bp_read_bytes r' = 0)
         \<and> bp_prev_chunk r' = bp_prev_chunk r0
         \<and> oplog (bp_content r') =
             oplog (bp_content r0) @ (if bp_at_eof r' then [OpReadline] else []))"
proof -
  have h1: "\<not> bp_at_eof length_reader" by (simp add: demo_defs)
  have h2: "bp_length length_reader = Some 5" by (simp add: demo_defs)
  have h3: "(0::int) < 5 \<and> int (bp_read_bytes length_reader) \<le> 5" by (simp add: demo_defs)
  have z1: "\<not> bp_at_eof zero_length_reader" by (simp add: demo_defs)
  have z2: "bp_length zero_length_reader = Some 0" by (simp add: demo_defs)
  note a = declared_length_read [OF h1 h2, of 3, THEN conjunct1, THEN mp, OF h3]
  note b = declared_length_read [OF z1 z2, of 64, THEN conjunct2, THEN mp, OF refl]
  show ?thesis by (rule conjI [OF a b])
qed

lemma zero_init: "BodyPartReader_init ''--X'' [(''Content-Length'', [''0''])] empty_part_stream
     = Inr zero_length_reader"
  by code_simp

lemma zero_run: "read_chunk 64 zero_length_reader =
   ([], zero_length_reader\<lparr>bp_content := \<lparr>pending = [''--X--'' @ CRLF],
        oplog = [OpRead 64, OpRead 64, OpUnread (CRLF @ ''--X--'' @ CRLF), OpReadline]\<rparr>,
      bp_at_eof := True, bp_prev_chunk := Some [], bp_content_eof := 1\<rparr>)"
  by code_simp

text \<open>
  Claim C8 as stated includes \<open>L = 0\<close>. A declared length of 0 is falsy in
  \<open>if self._length:\<close>, so the part is read by boundary scanning: on an empty part the reader
  issues two full-size reads and pushes the boundary back, instead of one read of
  \<open>min(sz, 0)\<close> bytes.
\<close>

theorem declared_length_zero_counterexample:
  "BodyPartReader_init ''--X'' [(''Content-Length'', [''0''])] empty_part_stream
     = Inr zero_length_reader
   \<and> oplog (bp_content (snd (read_chunk 64 zero_length_reader))) =
       [OpRead 64, OpRead 64, OpUnread (CRLF @ ''--X--'' @ CRLF), OpReadline]
   \<and> \<not> (case read_chunk 64 zero_length_reader of (chunk, r') \<Rightarrow>
      chunk = fst (t_read (nat (min (int 64) (0 - int (bp_read_bytes zero_length_reader))))
                     (bp_content zero_length_reader))
    \<and> int (length chunk) \<le> min (int 64) (0 - int (bp_read_bytes zero_length_reader))
    \<and> bp_read_bytes r' = bp_read_bytes zero_length_reader + length chunk
    \<and> (bp_at_eof r' \<longleftrightarrow> int (bp_read_bytes r') = 0)
    \<and> bp_prev_chunk r' = bp_prev_chunk zero_length_reader
    \<and> oplog (bp_content r') =
        oplog (bp_content zero_length_reader)
          @ OpRead (nat (min (int 64) (0 - int (bp_read_bytes zero_length_reader))))
          # (if bp_at_eof r' then [OpReadline] else []))"
  unfolding zero_run using zero_init by (simp add: demo_defs)

lemma read_loop_declared_length:
  assumes "\<not> bp_at_eof r" and "bp_length r = Some (int (length v))"
    and "bp_read_bytes r = m" and "m < length v"
    and "pending (bp_content r) = (drop m v @ CRLF @ rest) # later"
  shows "\<exists>r'. read_loop r data = Some (data @ drop m v, r') \<and> bp_at_eof r'
            \<and> bp_read_bytes r' = length v
            \<and> pending (bp_content r') = (if rest = [] then later else rest # later)"
  using assms
proof (induction "length v - m" arbitrary: r m data rule: less_induct)
  case less
  define n where "n = min chunk_size (length v - m)"
  have npos: "0 < n" using less.prems(4) by (simp add: n_def chunk_size_def)
  have nle: "n \<le> length v - m" by (simp add: n_def)
  have req: "nat (min (int chunk_size) (int (length v) - int (bp_read_bytes r))) = n"
    using less.prems(3,4) by (simp add: n_def)
  define c where "c = (bp_content r)\<lparr>pending := (drop (m + n) v @ CRLF @ rest) # later,
                                     oplog := oplog (bp_content r) @ [OpRead n]\<rparr>"
  have lt: "n < length (drop m v @ CRLF @ rest)" using nle by (simp add: CRLF_def)
  have tk: "take n (drop m v @ CRLF @ rest) = take n (drop m v)" using nle by simp
  have dr: "drop n (drop m v @ CRLF @ rest) = drop (m + n) v @ CRLF @ rest"
    using nle by (simp add: add.commute)
  have tr: "t_read n (bp_content r) = (take n (drop m v), c)"
    using less.prems(5) lt tk dr by (simp add: t_read_def c_def)
  have fl: "read_chunk_from_length chunk_size r = (take n (drop m v), r\<lparr>bp_content := c\<rparr>)"
    using less.prems(2) tr req by (simp add: read_chunk_from_length_def)
  have vpos: "int (length v) \<noteq> 0" using less.prems(4) by auto
  have disp: "(if bp_length r \<noteq> None \<and> bp_length r \<noteq> Some 0
          then read_chunk_from_length chunk_size r else read_chunk_from_stream chunk_size r)
        = (take n (drop m v), r\<lparr>bp_content := c\<rparr>)"
    using less.prems(2) vpos fl by simp
  note rc = read_chunk_not_eof [OF less.prems(1) disp]
  have ln: "length (take n (drop m v)) = n" using nle by simp
  show ?case
  proof (cases "m + n = length v")
    case True
    define r' where "r' = r\<lparr>bp_content := snd (t_readline c), bp_read_bytes := m + n,
                            bp_at_eof := True\<rparr>"
    have rc': "read_chunk chunk_size r = (take n (drop m v), r')"
      using rc True less.prems(1,2,3) ln by (simp add: r'_def)
    have all: "take n (drop m v) = drop m v" using True by simp
    have pend: "pending c = (CRLF @ rest) # later" using True by (simp add: c_def)
    have rl: "pending (snd (t_readline c)) = (if rest = [] then later else rest # later)"
      using t_readline_CRLF [OF pend] by simp
    have "read_loop r' (data @ drop m v) = Some (data @ drop m v, r')"
      by (subst read_loop.simps) (simp add: r'_def)
    then have "read_loop r data = Some (data @ drop m v, r')"
      using less.prems(1) rc' all by (subst read_loop.simps) simp
    then show ?thesis using rl True by (auto simp add: r'_def)
  next
    case False
    then have lt': "m + n < length v" using nle less.prems(4) by simp
    define r1 where "r1 = r\<lparr>bp_content := c, bp_read_bytes := m + n\<rparr>"
    have rc': "read_chunk chunk_size r = (take n (drop m v), r1)"
      using rc False less.prems(1,2,3) ln by (simp add: r1_def)
    have dec: "length v - (m + n) < length v - m" using npos lt' by simp
    have p1: "\<not> bp_at_eof r1" "bp_length r1 = Some (int (length v))" "bp_read_bytes r1 = m + n"
      "pending (bp_content r1) = (drop (m + n) v @ CRLF @ rest) # later"
      using less.prems(1,2) by (simp_all add: r1_def c_def)
    obtain r' where r': "read_loop r1 (data @ take n (drop m v))
                           = Some ((data @ take n (drop m v)) @ drop (m + n) v, r')"
        "bp_at_eof r'" "bp_read_bytes r' = length v"
        "pending (bp_content r') = (if rest = [] then later else rest # later)"
      using less.hyps [OF dec p1(1) p1(2) p1(3) lt' p1(4), of "data @ take n (drop m v)"] by blast
    have "take n (drop m v) @ drop (m + n) v = drop m v"
      by (metis add.commute append_take_drop_id drop_drop)
    then have "read_loop r1 (data @ take n (drop m v)) = Some (data @ drop m v, r')"
      using r'(1) by simp
    then have "read_loop r data = Some (data @ drop m v, r')"
      using less.prems(1) rc' by (subst read_loop.simps) simp
    then show ?thesis using r'(2,3,4) by blast
  qed
qed

lemma read_declared_length:
  assumes "\<not> bp_at_eof r" and "bp_length r = Some (int (length v))" and "v \<noteq> []"
    and "bp_read_bytes r = 0"
    and "pending (bp_content r) = (v @ CRLF @ rest) # later"
  shows "\<exists>r'. read r = Some (v, r') \<and> bp_at_eof r'
            \<and> pending (bp_content r') = (if rest = [] then later else rest # later)"
proof -
  have "0 < length v" using assms(3) by simp
  then show ?thesis
    using read_loop_declared_length [OF assms(1,2,4), of rest later "[]"] assms(1,5)
    by (auto simp add: read_def)
qed

section \<open>End-of-part is final\<close>

text \<open>
  Claim C3: in every reader state with the end-of-part flag set, any sequence of
  \<open>read_chunk\<close> calls (any sizes, any number) returns only empty byte strings and leaves the
  whole reader state unchanged, the transport with its pending bytes and its log of
  operations included: no read, readline or unread happens. The one exception is the call
  during which end-of-part becomes true: a call that starts before end-of-part appends to
  the transport's log operations that are not readlines, followed by exactly one readline
  if the call ends with end-of-part set, and none otherwise.
\<close>

theorem end_of_part_idempotent:
  "(bp_at_eof r \<longrightarrow> read_chunks ns r = (replicate (length ns) [], r))
   \<and> (\<not> bp_at_eof r \<longrightarrow>
        (\<exists>ops. oplog (bp_content (snd (read_chunk n r))) =
                 oplog (bp_content r) @ ops
                   @ (if bp_at_eof (snd (read_chunk n r)) then [OpReadline] else [])
               \<and> OpReadline \<notin> set ops))"
proof (intro conjI impI)
  assume "bp_at_eof r"
  then show "read_chunks ns r = (replicate (length ns) [], r)" by (rule read_chunks_at_eof)
next
  assume ne: "\<not> bp_at_eof r"
  obtain c r' where rc: "read_chunk n r = (c, r')" by (meson surj_pair)
  show "\<exists>ops. oplog (bp_content (snd (read_chunk n r))) =
                 oplog (bp_content r) @ ops
                   @ (if bp_at_eof (snd (read_chunk n r)) then [OpReadline] else [])
               \<and> OpReadline \<notin> set ops"
    using read_chunk_oplog [OF ne rc] rc by simp
qed

text \<open>
  The theorem applied to a reader at end-of-part (three calls of sizes 1, 8192 and 0) and
  to a reader that reaches end-of-part during the call.
\<close>

theorem end_of_part_idempotent_witness:
  "read_chunks [1, 8192, 0] done_reader = ([[], [], []], done_reader)
   \<and> (\<exists>ops. oplog (bp_content (snd (read_chunk 64 zero_length_reader))) =
                 oplog (bp_content zero_length_reader) @ ops
                   @ (if bp_at_eof (snd (read_chunk 64 zero_length_reader))
                      then [OpReadline] else [])
               \<and> OpReadline \<notin> set ops)"
proof -
  have a: "bp_at_eof done_reader" by (simp add: demo_defs)
  have b: "\<not> bp_at_eof zero_length_reader" by (simp add: demo_defs)
  show ?thesis
    using end_of_part_idempotent [of done_reader "[1, 8192, 0]"]
      end_of_part_idempotent [of zero_length_reader _ 64] a b
    by simp
qed

section \<open>A boundary split across two reads\<close>






text \<open>
  When every call asks for the same size, a carried-over chunk is never longer than that
  size, so the condition on the carried piece holds.
\<close>

lemma from_stream_carried_within_size:
  assumes "\<forall>p. bp_prev_chunk r = Some p \<longrightarrow> length p \<le> sz"
  shows "\<forall>p. bp_prev_chunk (snd (read_chunk_from_stream sz r)) = Some p \<longrightarrow> length p \<le> sz"
proof -
  obtain prev c1 where pc: "(case bp_prev_chunk r of None \<Rightarrow> t_read sz (bp_content r)
                        | Some p \<Rightarrow> (p, bp_content r)) = (prev, c1)"
    by (meson surj_pair)
  obtain chunk c2 where cc: "t_read sz c1 = (chunk, c2)" by (meson surj_pair)
  have lp: "length prev \<le> sz"
  proof (cases "bp_prev_chunk r")
    case None
    then show ?thesis using pc t_read_length [of sz "bp_content r"] by simp
  next
    case (Some p)
    then show ?thesis using pc assms by simp
  qed
  have lc: "length chunk \<le> sz" using cc t_read_length [of sz c1] by simp
  define idx where "idx = (if bp_prev_chunk r = None then py_find (prev @ chunk) (CRLF @ bp_boundary r) 0
          else py_find (prev @ chunk) (CRLF @ bp_boundary r)
                 (max 0 (length prev - length (CRLF @ bp_boundary r))))"
  note u = from_stream_unfold [OF pc cc idx_def [symmetric]]
  show ?thesis
  proof (cases idx)
    case None
    then show ?thesis unfolding u using lc by simp
  next
    case (Some i)
    have "length (take (i - length (if i < sz then take i prev else prev))
                    (drop (length (if i < sz then take i prev else prev)) (prev @ chunk))) \<le> sz"
    proof (cases "i < length prev")
      case True
      then have "i < sz" using lp by simp
      then show ?thesis using True by simp
    next
      case False
      then have "(if i < sz then take i prev else prev) = prev" by simp
      then show ?thesis using lc by simp
    qed
    then show ?thesis unfolding u Some by simp
  qed
qed

lemma carried_chunk_within_size:
  assumes "\<forall>p. bp_prev_chunk r = Some p \<longrightarrow> length p \<le> sz"
  shows "\<forall>p. bp_prev_chunk (snd (read_chunk sz r)) = Some p \<longrightarrow> length p \<le> sz"
proof (cases "bp_at_eof r")
  case True
  then show ?thesis using assms by (simp add: read_chunk_def)
next
  case False
  obtain chunk r1 where disp: "(if bp_length r \<noteq> None \<and> bp_length r \<noteq> Some 0
          then read_chunk_from_length sz r else read_chunk_from_stream sz r) = (chunk, r1)"
    by (meson surj_pair)
  have "bp_prev_chunk (snd (read_chunk_from_length sz r)) = bp_prev_chunk r"
    by (simp add: read_chunk_from_length_def Let_def split: option.split prod.split)
  then have "\<forall>p. bp_prev_chunk r1 = Some p \<longrightarrow> length p \<le> sz"
    using disp assms from_stream_carried_within_size [OF assms]
    by (cases "bp_length r \<noteq> None \<and> bp_length r \<noteq> Some 0") auto
  then show ?thesis unfolding read_chunk_not_eof [OF False disp] by simp
qed

section \<open>Base64 through the encoding sink\<close>

lemma b64encode_append:
  "length xs mod 3 = 0 \<Longrightarrow> b64encode (xs @ ys) = b64encode xs @ b64encode ys"
proof (induction xs rule: b64encode.induct)
  case (1 a b c rest)
  then have "length rest mod 3 = 0" by simp
  then show ?case using "1.IH" by simp
qed simp_all

lemma mpw_write_base64:
  assumes "pw_compressor s = None" and "pw_encoding s = Some ''base64''"
    and "pw_encoding_buffer s = Some buf"
  shows "mpw_write api qp chunk s =
     Inr (s\<lparr>pw_encoding_buffer := Some (drop ((length (buf @ chunk) div 3) * 3) (buf @ chunk)),
            pw_writer := pw_writer s @
              (if (length (buf @ chunk) div 3) * 3 \<noteq> 0
               then [b64encode (take ((length (buf @ chunk) div 3) * 3) (buf @ chunk))]
               else [])\<rparr>)"
proof (cases "(length (buf @ chunk) div 3) * 3 = 0")
  case True
  then show ?thesis using assms by (simp add: mpw_write_def Let_def)
next
  case False
  then have "buf @ chunk \<noteq> []" by auto
  then show ?thesis using assms False by (simp add: mpw_write_def Let_def)
qed

lemma feed_base64:
  fixes s :: "'c sink"
  assumes "pw_compressor s = None" and "pw_encoding s = Some ''base64''"
    and "pw_encoding_buffer s = Some buf" and "length buf < 3"
    and "length done mod 3 = 0" and "concat (pw_writer s) = b64encode done"
  shows "\<exists>s' done' buf'. feed api qp chunks s = Inr s'
       \<and> pw_compressor s' = None \<and> pw_encoding s' = Some ''base64''
       \<and> pw_encoding_buffer s' = Some buf' \<and> length buf' < 3
       \<and> length done' mod 3 = 0 \<and> concat (pw_writer s') = b64encode done'
       \<and> done' @ buf' = done @ buf @ concat chunks"
  using assms
proof (induction chunks arbitrary: s buf "done")
  case Nil
  then show ?case by auto
next
  case (Cons c cs)
  define w where "w = buf @ c"
  define barrier where "barrier = (length w div 3) * 3"
  define s1 where "s1 = s\<lparr>pw_encoding_buffer := Some (drop barrier w),
            pw_writer := pw_writer s @ (if barrier \<noteq> 0 then [b64encode (take barrier w)] else [])\<rparr>"
  have wr: "mpw_write api qp c s = Inr s1"
    using mpw_write_base64 [OF Cons.prems(1,2,3), of api qp c] by (simp add: s1_def barrier_def w_def)
  have b3: "barrier mod 3 = 0" by (simp add: barrier_def)
  have bl: "barrier \<le> length w" by (simp add: barrier_def)
  have a1: "pw_compressor s1 = None" "pw_encoding s1 = Some ''base64''"
    "pw_encoding_buffer s1 = Some (drop barrier w)"
    using Cons.prems(1,2) by (simp_all add: s1_def)
  have a4: "length (drop barrier w) < 3"
    by (simp add: barrier_def)
  have "length (done @ take barrier w) = length done + barrier" using bl by simp
  then have a5: "length (done @ take barrier w) mod 3 = 0"
    using Cons.prems(5) b3 by presburger
  have "b64encode (take barrier w) = [] " if "barrier = 0" using that by simp
  then have a6: "concat (pw_writer s1) = b64encode (done @ take barrier w)"
    using Cons.prems(6) b64encode_append [OF Cons.prems(5), of "take barrier w"]
    by (simp add: s1_def)
  obtain s' :: "'c sink" and done' buf' where r: "feed api qp cs s1 = Inr s'"
       "pw_compressor s' = None" "pw_encoding s' = Some ''base64''"
       "pw_encoding_buffer s' = Some buf'" "length buf' < 3"
       "length done' mod 3 = 0" "concat (pw_writer s') = b64encode done'"
       "done' @ buf' = (done @ take barrier w) @ drop barrier w @ concat cs"
    using Cons.IH [OF a1 a4 a5 a6] by (elim exE conjE) (rule that)
  have "take barrier w @ drop barrier w = buf @ c"
    unfolding w_def by (rule append_take_drop_id)
  then have e: "done' @ buf' = done @ buf @ concat (c # cs)"
    using r(8) by (simp only: append_assoc concat.simps) (metis append_assoc)
  have fd: "feed api qp (c # cs) s = Inr s'" using wr r(1) by simp
  show ?case
    by (rule exI [of _ s'], rule exI [of _ done'], rule exI [of _ buf'], intro conjI)
       (rule fd r(2) r(3) r(4) r(5) r(6) r(7) e)+
qed

lemma concat_chunks_of: "0 < n \<Longrightarrow> concat (chunks_of n xs) = xs"
proof (induction n xs rule: chunks_of.induct)
  case (1 n xs)
  show ?case
  proof (cases "xs = []")
    case True
    then show ?thesis by (subst chunks_of.simps) simp
  next
    case False
    then show ?thesis using "1.IH" "1.prems" by (subst chunks_of.simps) simp
  qed
qed

lemma split_at_multiple:
  assumes "d @ b = xs" and "length d mod 3 = 0" and "length b < 3"
  shows "d = take (3 * (length xs div 3)) xs \<and> b = drop (3 * (length xs div 3)) xs"
proof -
  have "length xs = length d + length b" using assms(1) by auto
  then have "3 * (length xs div 3) = length d" using assms(2,3) by presburger
  then show ?thesis using assms(1) by auto
qed

lemma sink_run:
  fixes api :: "'c codec"
  shows "\<exists>s. feed api qp chunks base64_sink = Inr s
     \<and> pw_encoding_buffer s = Some (drop (3 * (length (concat chunks) div 3)) (concat chunks))
     \<and> concat (pw_writer s) = b64encode (take (3 * (length (concat chunks) div 3)) (concat chunks))
     \<and> (\<exists>s'. mpw_write_eof api qp s = Inr s'
            \<and> concat (pw_writer s') = b64encode (concat chunks))"
proof -
  have i: "pw_compressor (base64_sink :: 'c sink) = None"
    "pw_encoding (base64_sink :: 'c sink) = Some ''base64''"
    "pw_encoding_buffer (base64_sink :: 'c sink) = Some []"
    "length ([] :: bytes) < 3" "length ([] :: bytes) mod 3 = 0"
    "concat (pw_writer (base64_sink :: 'c sink)) = b64encode []"
    by (simp_all add: base64_sink_def enable_encoding_def MultipartPayloadWriter_init_def)
  obtain s :: "'c sink" and d b where r: "feed api qp chunks base64_sink = Inr s"
       "pw_compressor s = None" "pw_encoding s = Some ''base64''"
       "pw_encoding_buffer s = Some b" "length b < 3"
       "length d mod 3 = 0" "concat (pw_writer s) = b64encode d"
       "d @ b = [] @ [] @ concat chunks"
    using feed_base64 [OF i, of api qp chunks] by (elim exE conjE) (rule that)
  have db: "d @ b = concat chunks" using r(8) by simp
  note sp = split_at_multiple [OF db r(6) r(5)]
  have full: "b64encode d @ b64encode b = b64encode (concat chunks)"
    using b64encode_append [OF r(6), of b] db by simp
  have "\<exists>s'. mpw_write_eof api qp s = Inr s' \<and> concat (pw_writer s') = b64encode (concat chunks)"
  proof (cases "b = []")
    case True
    then show ?thesis using r(2,3,4,7) db by (simp add: mpw_write_eof_def)
  next
    case False
    then show ?thesis using r(2,3,4,7) full by (simp add: mpw_write_eof_def)
  qed
  then show ?thesis using r(1,4,7) sp by simp
qed

lemma sink_output_any: "sink_output api qp chunks = Inr (b64encode (concat chunks))"
  using sink_run [of api qp chunks] by (auto simp add: sink_output_def)

text \<open>
  Claim C7: with base64 transfer encoding enabled and no compressor, feeding the sink any
  sequence of chunks and calling \<open>write_eof\<close> leaves on the underlying writer exactly the
  base64 encoding of the whole input; in particular for the input cut into chunks of 1, 2,
  3, 7 or 4096 bytes. After any sequence of writes (every intermediate point), what has
  been written is the encoding of the longest prefix whose length is a multiple of 3, and
  the accumulator holds the remaining bytes.
\<close>

theorem base64_chunk_invariance:
  "sink_output api qp chunks = Inr (b64encode (concat chunks))
   \<and> sink_output api qp (chunks_of 1 input) = Inr (b64encode input)
   \<and> sink_output api qp (chunks_of 2 input) = Inr (b64encode input)
   \<and> sink_output api qp (chunks_of 3 input) = Inr (b64encode input)
   \<and> sink_output api qp (chunks_of 7 input) = Inr (b64encode input)
   \<and> sink_output api qp (chunks_of 4096 input) = Inr (b64encode input)
   \<and> (\<exists>s. feed api qp chunks base64_sink = Inr s
        \<and> pw_encoding_buffer s =
            Some (drop (3 * (length (concat chunks) div 3)) (concat chunks))
        \<and> concat (pw_writer s) =
            b64encode (take (3 * (length (concat chunks) div 3)) (concat chunks)))"
proof -
  have "sink_output api qp (chunks_of n input) = Inr (b64encode input)" if "0 < n" for n
    using sink_output_any [of api qp "chunks_of n input"] concat_chunks_of [OF that, of input]
    by simp
  then show ?thesis
    using sink_output_any [of api qp chunks] sink_run [of api qp chunks] by auto
qed

section \<open>Rendering the boundary\<close>

lemma two_pass_escape:
  "[DQUOTE] @ replace_byte DQUOTE [BACKSLASH, DQUOTE]
                 (replace_byte BACKSLASH [BACKSLASH, BACKSLASH] b) @ [DQUOTE]
   = spec_quoted_string b"
  by (induction b) (auto simp add: replace_byte_def spec_quoted_string_def BACKSLASH_def DQUOTE_def)

lemma escape_ascii:
  "list_all is_ascii b \<Longrightarrow>
   list_all is_ascii (replace_byte DQUOTE [BACKSLASH, DQUOTE]
                 (replace_byte BACKSLASH [BACKSLASH, BACKSLASH] b))"
  by (induction b) (auto simp add: replace_byte_def is_ascii_def BACKSLASH_def DQUOTE_def)

lemma tchar_ascii: "valid_tchar c \<Longrightarrow> is_ascii c"
  by (auto simp add: valid_tchar_def is_ascii_def Let_def)

lemma boundary_value_ascii:
  assumes "list_all is_ascii b"
  shows "boundary_value b =
     (if b \<noteq> [] \<and> list_all valid_tchar b then Inr b
      else if list_ex invalid_qdtext_char b
        then Inl (ValueError ''boundary value contains invalid characters'')
      else Inr (spec_quoted_string b))"
  unfolding boundary_value_def Let_def if_P [OF assms] if_P [OF escape_ascii [OF assms]]
    two_pass_escape
  by (rule refl)

text \<open>
  Claim C9, as amended: for every caller-supplied boundary, construction fails when the
  boundary is not ASCII; otherwise, if the boundary is not empty and every byte is a token
  character, the writer's content type carries the raw token; else if it contains a control
  character other than TAB, construction fails with the invalid-boundary error; else the
  content type carries the boundary as a double-quoted string with backslash and double
  quote escaped.
\<close>

theorem boundary_rendering:
  "MultipartWriter_init subtype (Some b) u =
     (if \<not> list_all is_ascii b
        then Inl (ValueError ''boundary should contains ASCII only chars'')
      else if b \<noteq> [] \<and> list_all valid_tchar b then Inr (writer_with subtype b b)
      else if list_ex invalid_qdtext_char b
        then Inl (ValueError ''boundary value contains invalid characters'')
      else Inr (writer_with subtype b (spec_quoted_string b)))"
proof (cases "list_all is_ascii b")
  case True
  then show ?thesis
    using boundary_value_ascii [OF True]
    by (simp add: MultipartWriter_init_def encode_ascii_def writer_with_def Let_def)
next
  case False
  then show ?thesis by (simp add: MultipartWriter_init_def encode_ascii_def)
qed

text \<open>
  The theorem applied to a token, to a boundary with a space and a double quote, and to a
  boundary with the control byte 0x01.
\<close>

theorem boundary_rendering_witness:
  "MultipartWriter_init ''mixed'' (Some ''simple'') ''0f'' = Inr (writer_with ''mixed'' ''simple'' ''simple'')
   \<and> MultipartWriter_init ''mixed'' (Some [CHR ''a'', CHR '' '', DQUOTE]) ''0f''
       = Inr (writer_with ''mixed'' [CHR ''a'', CHR '' '', DQUOTE]
                [DQUOTE, CHR ''a'', CHR '' '', BACKSLASH, DQUOTE, DQUOTE])
   \<and> MultipartWriter_init ''mixed'' (Some [CHR 0x01]) ''0f''
       = Inl (ValueError ''boundary value contains invalid characters'')"
  using boundary_rendering [of "''mixed''" "''simple''" "''0f''"]
    boundary_rendering [of "''mixed''" "[CHR ''a'', CHR '' '', DQUOTE]" "''0f''"]
    boundary_rendering [of "''mixed''" "[CHR 0x01]" "''0f''"]
  by (simp add: is_ascii_def valid_tchar_def invalid_qdtext_char_def spec_quoted_string_def
        DQUOTE_def BACKSLASH_def)

text \<open>
  Claim C9 as stated fails for the empty boundary: every byte of it is a token character,
  yet the regex requires at least one character, so the writer emits the quoted empty
  string and not the raw (empty) token.
\<close>

theorem boundary_empty_counterexample:
  "list_all valid_tchar [] 
   \<and> boundary_value [] = Inr [DQUOTE, DQUOTE]
   \<and> MultipartWriter_init ''mixed'' (Some []) ''0f'' = Inr (writer_with ''mixed'' [] [DQUOTE, DQUOTE])
   \<and> MultipartWriter_init ''mixed'' (Some []) ''0f'' \<noteq> Inr (writer_with ''mixed'' [] [])"
  by (simp add: boundary_value_def MultipartWriter_init_def encode_ascii_def writer_with_def
        replace_byte_def CONTENT_TYPE_def DQUOTE_def Let_def)

section \<open>The headers attribute of a payload, and append\<close>

lemma same_key_refl: "same_key k k"
  by (simp add: same_key_def)

lemma header_names_differ:
  "\<not> same_key CONTENT_TYPE CONTENT_ENCODING" "\<not> same_key CONTENT_TYPE CONTENT_TRANSFER_ENCODING"
  "\<not> same_key CONTENT_TYPE CONTENT_LENGTH" "\<not> same_key CONTENT_LENGTH CONTENT_ENCODING"
  "\<not> same_key CONTENT_LENGTH CONTENT_TRANSFER_ENCODING" "same_key CONTENT_TYPE CONTENT_TYPE"
  by (simp_all add: same_key_def lower_def lower_char_def CONTENT_TYPE_def CONTENT_ENCODING_def
        CONTENT_TRANSFER_ENCODING_def CONTENT_LENGTH_def)






text \<open>
  Claim C6 fails on the code: for a payload that already carries headers, \<open>append\<close> layers
  the supplied headers over them and returns, without calling \<open>append_payload\<close>; the writer
  comes back unchanged, so no part is recorded and no Content-Type is added. At the
  concrete input, a payload with a Content-Disposition header appended with \<open>X-Token: 1\<close>
  to a fresh writer leaves the writer with no parts and the payload without Content-Type.
\<close>

theorem append_payload_object_not_recorded:
  "append g w (Payload (p\<lparr>pl_headers := Hdrs h\<rparr>)) (Some hs)
     = Inr (w, p\<lparr>pl_headers := Hdrs (md_update h hs)\<rparr>, None)
   \<and> append no_guess demo_writer (Payload disposition_payload) (Some token_headers)
     = Inr (demo_writer,
            disposition_payload
              \<lparr>pl_headers := Hdrs [(CONTENT_DISPOSITION, [''attachment'']), (''X-Token'', [''1''])]\<rparr>,
            None)
   \<and> mw_parts demo_writer = []
   \<and> md_get [(CONTENT_DISPOSITION, [''attachment'']), (''X-Token'', [''1''])] CONTENT_TYPE = None"
  by (simp add: append_def disposition_payload_def token_headers_def md_update_def md_items_def
        same_key_def lower_def lower_char_def CONTENT_DISPOSITION_def CONTENT_TYPE_def
        demo_writer_def writer_with_def md_get_def md_get_all_def)

section \<open>Parsing Content-Disposition\<close>






















section \<open>Resolving the file name\<close>

text \<open>
  Claim C5 fails on the code for eleven or more segments: the segments are sorted as
  strings, so \<open>filename*10\<close> comes before \<open>filename*2\<close>, the third segment does not carry the
  number 2, and assembly stops after \<open>filename*1\<close> although no number is missing. With ten
  segments the whole name is assembled.
\<close>

theorem continuation_order_lexicographic:
  "parse_content_disposition plain_unquote
     ''attachment; filename*0=a; filename*1=b; filename*2=c; filename*3=d; filename*4=e; filename*5=f; filename*6=g; filename*7=h; filename*8=i; filename*9=j; filename*10=k''
     = Inr (Some ''attachment'', eleven_segments)
   \<and> content_disposition_filename plain_unquote eleven_segments ''filename'' = Inr (Some ''ab'')
   \<and> content_disposition_filename plain_unquote (take 10 eleven_segments) ''filename''
       = Inr (Some ''abcdefghij'')"
  by code_simp

section \<open>Writing recorded parts and reading them back\<close>

lemma write_parts_plain:
  assumes "\<forall>part \<in> set ps. fst (snd (snd part)) = None \<and> snd (snd (snd part)) = None"
  shows "write_parts api qp b ps out = Inr (out @ concat (map (wire_part b) ps))"
  using assms
proof (induction ps arbitrary: out)
  case Nil
  then show ?case by simp
next
  case (Cons part ps)
  obtain p hdr e t where part: "part = (p, hdr, e, t)" by (cases part)
  have none: "e = None" "t = None" using Cons.prems part by simp_all
  have rest: "\<forall>part \<in> set ps. fst (snd (snd part)) = None \<and> snd (snd (snd part)) = None"
    using Cons.prems by simp
  show ?case
    using Cons.IH [OF rest] none by (simp add: part wire_part_def)
qed

lemma of_char_digit: "d < 10 \<Longrightarrow> (of_char (digit_char d) :: nat) = 48 + d"
  by (simp add: digit_char_def)

lemma is_decimal_digit: "d < 10 \<Longrightarrow> is_decimal (digit_char d)"
  by (simp add: is_decimal_def of_char_digit)

lemma str_nat_decimal: "str_nat n \<noteq> [] \<and> list_all is_decimal (str_nat n)"
proof (induction n rule: str_nat.induct)
  case (1 n)
  show ?case
  proof (cases "n < 10")
    case True
    then show ?thesis by (subst str_nat.simps, subst (2) str_nat.simps) (simp add: is_decimal_digit)
  next
    case False
    have "n mod 10 < 10" by simp
    then have "is_decimal (digit_char (n mod 10))" by (rule is_decimal_digit)
    then show ?thesis
      using "1.IH" False by (subst str_nat.simps, subst (2) str_nat.simps) simp
  qed
qed

lemma digits_ok_decimal: "s \<noteq> [] \<Longrightarrow> list_all is_decimal s \<Longrightarrow> digits_ok s"
proof (induction s rule: digits_ok.induct)
  case (3 c d cs)
  have "d \<noteq> CHR ''_''" using "3.prems"(2) by (auto simp add: is_decimal_def)
  then show ?case using 3 by simp
qed simp_all

lemma digits_value_snoc:
  "is_decimal d \<Longrightarrow> digits_value (s @ [d]) = 10 * digits_value s + (of_char d - 48)"
  by (auto simp add: digits_value_def is_decimal_def)

lemma digits_value_str_nat: "digits_value (str_nat n) = n"
proof (induction n rule: str_nat.induct)
  case (1 n)
  show ?case
  proof (cases "n < 10")
    case True
    then show ?thesis
      using digits_value_snoc [OF is_decimal_digit [OF True], of "[]"] of_char_digit [OF True]
      by (subst str_nat.simps) (simp add: digits_value_def)
  next
    case False
    have d: "n mod 10 < 10" by simp
    have "digits_value (str_nat (n div 10) @ [digit_char (n mod 10)])
            = 10 * digits_value (str_nat (n div 10)) + (of_char (digit_char (n mod 10)) - 48)"
      by (rule digits_value_snoc) (rule is_decimal_digit [OF d])
    then show ?thesis
      using False "1.IH" of_char_digit [OF d] by (subst str_nat.simps) simp
  qed
qed

lemma decimal_not_space: "is_decimal c \<Longrightarrow> \<not> int_space c"
  by (simp add: is_decimal_def int_space_def Let_def)

lemma strip_decimal:
  assumes "s \<noteq> []" and "list_all is_decimal s"
  shows "rev (dropWhile int_space (rev (dropWhile int_space s))) = s"
proof -
  have h: "\<not> int_space (hd s)" and l: "\<not> int_space (last s)"
    using assms decimal_not_space by (simp_all add: list_all_iff)
  have "dropWhile int_space s = s" using assms(1) h by (cases s) simp_all
  moreover have "dropWhile int_space (rev s) = rev s"
    using assms(1) l by (cases "rev s") (simp_all add: last_rev [symmetric] hd_rev)
  ultimately show ?thesis by simp
qed

lemma py_int_str_nat: "py_int (str_nat n) = Inr (int n)"
proof -
  note d = str_nat_decimal [of n]
  obtain c cs where s: "str_nat n = c # cs" using d by (cases "str_nat n") auto
  have "is_decimal c" using d s by simp
  then have "c \<noteq> CHR ''-''" "c \<noteq> CHR ''+''" by (auto simp add: is_decimal_def)
  then show ?thesis
    using strip_decimal [of "str_nat n"] d digits_ok_decimal [of "str_nat n"]
      digits_value_str_nat [of n] s
    by (simp add: py_int_def)
qed

lemma read_back_written:
  assumes "\<forall>part \<in> set ps. sized_part part"
  shows "read_back b ps (concat (concat (map (wire_part b) ps)) @ tail)
           = Some (map (\<lambda>part. pl_value (fst part)) ps)"
  using assms
proof (induction ps)
  case Nil
  then show ?case by simp
next
  case (Cons part ps)
  define v where "v = pl_value (fst part)"
  define hdr where "hdr = fst (snd part)"
  define rest where "rest = concat (concat (map (wire_part b) ps)) @ tail"
  have sp: "sized_part part" using Cons.prems by simp
  then obtain h where h: "pl_headers (fst part) = Hdrs h"
      "md_get h CONTENT_LENGTH = Some (str_nat (length v))" and ne: "v \<noteq> []"
    by (auto simp add: sized_part_def v_def split: headers_attr.splits)
  have stream: "concat (concat (map (wire_part b) (part # ps))) @ tail
                  = (''--'' @ b @ CRLF @ hdr) @ v @ CRLF @ rest"
    by (simp add: wire_part_def v_def hdr_def rest_def)
  define r where "r = \<lparr>bp_headers = h, bp_boundary = ''--'' @ b,
       bp_content = stream_of [v @ CRLF @ rest],
       bp_at_eof = False, bp_length = Some (int (length v)), bp_read_bytes = 0, bp_unread = [],
       bp_prev_chunk = None, bp_content_eof = 0\<rparr>"
  have init: "BodyPartReader_init (''--'' @ b) h
                (stream_of [drop (length (''--'' @ b @ CRLF @ hdr))
                              (concat (concat (map (wire_part b) (part # ps))) @ tail)]) = Inr r"
    unfolding stream using h(2) py_int_str_nat [of "length v"]
    by (simp add: BodyPartReader_init_def r_def)
  have pre: "\<not> bp_at_eof r" "bp_length r = Some (int (length v))" "bp_read_bytes r = 0"
    "pending (bp_content r) = (v @ CRLF @ rest) # []"
    by (simp_all add: r_def stream_of_def)
  obtain r' where r': "read r = Some (v, r')"
      "pending (bp_content r') = (if rest = [] then [] else rest # [])"
    using read_declared_length [OF pre(1) pre(2) ne pre(3) pre(4)] by blast
  have left: "concat (pending (bp_content r')) = rest" using r'(2) by simp
  have ih: "read_back b ps rest = Some (map (\<lambda>part. pl_value (fst part)) ps)"
    unfolding rest_def using Cons.IH Cons.prems by simp
  show ?case
    using h(1) init r'(1) left ih by (simp add: hdr_def v_def)
qed

lemma recorded_part_sized: "v \<noteq> [] \<Longrightarrow> sized_part (recorded_part v)"
  by (simp add: sized_part_def recorded_part_def BytesPayload_init_def
        payload_superclass_init_def md_get_def md_get_all_def header_names_differ same_key_refl)

lemma written_bodies_read_back:
  assumes "mw_parts w \<noteq> []" and "\<forall>part \<in> set (mw_parts w). sized_part part"
  shows "\<exists>out. mw_write api qp w True [] = Inr out
           \<and> read_back (mw_boundary w) (mw_parts w) (concat out)
               = Some (map (\<lambda>part. pl_value (fst part)) (mw_parts w))"
proof -
  have plain: "\<forall>part \<in> set (mw_parts w).
                 fst (snd (snd part)) = None \<and> snd (snd (snd part)) = None"
    using assms(2) by (simp add: sized_part_def)
  have wr: "mw_write api qp w True []
      = Inr (concat (map (wire_part (mw_boundary w)) (mw_parts w))
             @ [''--'' @ mw_boundary w @ ''--'' @ CRLF])"
    using assms(1) write_parts_plain [OF plain, of api qp "mw_boundary w" "[]"]
    by (simp add: mw_write_def)
  have "read_back (mw_boundary w) (mw_parts w)
          (concat (concat (map (wire_part (mw_boundary w)) (mw_parts w)))
             @ (''--'' @ mw_boundary w @ ''--'' @ CRLF))
        = Some (map (\<lambda>part. pl_value (fst part)) (mw_parts w))"
    by (rule read_back_written [OF assms(2)])
  then show ?thesis using wr by simp
qed

lemma quoted_value_rejected:
  "parse_content_disposition plain_unquote (''form-data; name='' @ [DQUOTE] @ ''field'' @ [DQUOTE])
     = Inr (None, [])"
  by code_simp

text \<open>
  Claim C1 fails on the code before anything is written: \<open>append\<close> of a raw bytes or text
  value raises \<open>TypeError\<close> (the payload is constructed with an empty headers mapping, its
  \<open>headers\<close> attribute is \<open>None\<close>, and \<open>append_payload\<close> tests membership in it);
  \<open>append_payload\<close> of a constructed payload raises the same; \<open>append\<close> of a constructed
  payload returns without recording it; and a writer without parts writes nothing. On the
  reading side, a Content-Disposition with a quoted parameter value, as the writer renders
  it, parses to (none, empty): the quoted branch never clears \<open>failed\<close>.
\<close>

theorem append_raw_value_fails:
  "append g w (Raw (VBytes b)) None = Inl TypeError
   \<and> append g w (Raw (VStr s)) None = Inl TypeError
   \<and> append_payload g w (BytesPayload_init b None None None None) = Inl TypeError
   \<and> append g w (Payload (BytesPayload_init b None None None None)) None
       = Inr (w, (BytesPayload_init b None None None None)\<lparr>pl_headers := Hdrs []\<rparr>, None)
   \<and> MultipartWriter_init ''mixed'' (Some ''X'') u = Inr demo_writer
   \<and> append no_guess demo_writer (Raw (VBytes ''hello'')) None = Inl TypeError
   \<and> mw_write api qp demo_writer True [] = Inr []
   \<and> parse_content_disposition plain_unquote (''form-data; name='' @ [DQUOTE] @ ''field'' @ [DQUOTE])
       = Inr (None, [])"
  using quoted_value_rejected
  by (simp add: append_def create_payload_def append_payload_def BytesPayload_init_def
        StringPayload_init_def payload_superclass_init_def is_lookup_error_def mw_write_def
        demo_writer_def writer_with_def MultipartWriter_init_def encode_ascii_def
        boundary_value_def is_ascii_def valid_tchar_def CONTENT_TYPE_def Let_def)

end
